theory Spec2Isabelle
  imports Main "HOL-Library.AList"
begin

section \<open>Python strings\<close>

text \<open>
  A Python 3 \<^verbatim>\<open>str\<close> is a sequence of Unicode code points. The regular expressions of
  \<^verbatim>\<open>extract_token_symbol\<close> name code points beyond one byte (the dashes U+2013 and U+2014,
  the range U+10000..U+10FFFF) and the vote glyphs are U+1F7E2 and U+1F534, so a string is
  modelled as the list of its code points. \<open>of_ascii\<close> reads an ASCII literal.
\<close>

type_synonym pystr = "nat list"

definition of_ascii :: "string \<Rightarrow> pystr" where
  "of_ascii s = map of_char s"

text \<open>\<^verbatim>\<open>str.isspace\<close>, which is also what \<^verbatim>\<open>\s\<close> matches in a \<^verbatim>\<open>str\<close> pattern.\<close>

definition is_space :: "nat \<Rightarrow> bool" where
  "is_space c \<longleftrightarrow>
     c \<in> {9, 10, 11, 12, 13, 28, 29, 30, 31, 32, 133, 160, 5760,
          8232, 8233, 8239, 8287, 12288} \<or> (8192 \<le> c \<and> c \<le> 8202)"

text \<open>\<^verbatim>\<open>s.strip()\<close> and \<^verbatim>\<open>s.strip(chars)\<close>: both ends.\<close>

definition py_strip :: "pystr \<Rightarrow> pystr" where
  "py_strip s = rev (dropWhile is_space (rev (dropWhile is_space s)))"

definition py_strip_chars :: "pystr \<Rightarrow> pystr \<Rightarrow> pystr" where
  "py_strip_chars chars s =
     rev (dropWhile (\<lambda>c. c \<in> set chars) (rev (dropWhile (\<lambda>c. c \<in> set chars) s)))"

text \<open>
  \<^verbatim>\<open>s.upper()\<close> replaces each code point by its full upper-case mapping, which may be
  several code points (U+00DF becomes \<^verbatim>\<open>SS\<close>). On ASCII it maps \<^verbatim>\<open>a\<close> to \<^verbatim>\<open>z\<close> onto
  \<^verbatim>\<open>A\<close> to \<^verbatim>\<open>Z\<close> and leaves the rest. The mapping of the code points beyond ASCII is a
  table of the Unicode database, not part of the repository: it is the parameter \<open>up\<close>.
\<close>

definition py_upper :: "(nat \<Rightarrow> pystr) \<Rightarrow> pystr \<Rightarrow> pystr" where
  "py_upper up s =
     concat (map (\<lambda>c. if 97 \<le> c \<and> c \<le> 122 then [c - 32]
                      else if c < 128 then [c] else up c) s)"

text \<open>\<^verbatim>\<open>s.split(',')\<close>: every separator cuts, empty pieces are kept.\<close>

fun py_split :: "nat \<Rightarrow> pystr \<Rightarrow> pystr list" where
  "py_split sep [] = [[]]"
| "py_split sep (c # cs) =
     (if c = sep then [] # py_split sep cs
      else (case py_split sep cs of p # ps \<Rightarrow> (c # p) # ps | [] \<Rightarrow> [[c]]))"

text \<open>\<^verbatim>\<open>str(n)\<close> for an integer: decimal digits, a minus sign for a negative number.\<close>

fun digit_chars :: "nat \<Rightarrow> pystr" where
  "digit_chars n = (if n < 10 then [48 + n] else digit_chars (n div 10) @ [48 + n mod 10])"

definition py_str :: "int \<Rightarrow> pystr" where
  "py_str i = (if i < 0 then 45 # digit_chars (nat (- i)) else digit_chars (nat i))"

section \<open>The regular expressions of the extractor\<close>

text \<open>
  Every pattern given to \<^verbatim>\<open>re.search\<close> in \<^verbatim>\<open>extract_token_symbol\<close> is a sequence of
  literal characters around one capturing group, a character class repeated between
  \<open>lo\<close> and \<open>hi\<close> times. \<open>Run\<close> is that group: greedy, longest first, backing off
  one character at a time while the rest of the pattern fails.
\<close>

datatype item = Lit nat | Run "nat \<Rightarrow> bool" nat nat

fun greedy :: "(nat \<Rightarrow> 'a option) \<Rightarrow> nat \<Rightarrow> nat \<Rightarrow> 'a option" where
  "greedy f lo 0 = (if lo = 0 then f 0 else None)"
| "greedy f lo (Suc n) =
     (if Suc n < lo then None
      else (case f (Suc n) of Some r \<Rightarrow> Some r | None \<Rightarrow> greedy f lo n))"

text \<open>\<open>match_at p g s\<close>: match \<open>p\<close> at the start of \<open>s\<close>; the result is group 1.\<close>

primrec match_at :: "item list \<Rightarrow> pystr \<Rightarrow> pystr \<Rightarrow> pystr option" where
  "match_at [] g s = Some g"
| "match_at (i # is) g s =
     (case i of
        Lit c \<Rightarrow> (case s of [] \<Rightarrow> None | x # xs \<Rightarrow> if x = c then match_at is g xs else None)
      | Run p lo hi \<Rightarrow>
          greedy (\<lambda>n. match_at is (take n s) (drop n s)) lo (min hi (length (takeWhile p s))))"

text \<open>\<^verbatim>\<open>re.search\<close>: the leftmost position where the pattern matches.\<close>

fun re_search :: "item list \<Rightarrow> pystr \<Rightarrow> pystr option" where
  "re_search p [] = match_at p [] []"
| "re_search p (c # cs) =
     (case match_at p [] (c # cs) of Some g \<Rightarrow> Some g | None \<Rightarrow> re_search p cs)"

text \<open>
  \<^verbatim>\<open>re.sub(r'^[...]+', '', text)\<close>: without MULTILINE the anchor holds at position 0 only,
  so the one possible match is the leading run of the class.
\<close>

definition re_sub_leading :: "(nat \<Rightarrow> bool) \<Rightarrow> pystr \<Rightarrow> pystr" where
  "re_sub_leading cls s = dropWhile cls s"

text \<open>\<^verbatim>\<open>re.split(r'[...]+', s)\<close>: cut at every maximal run of the class.\<close>

function re_split :: "(nat \<Rightarrow> bool) \<Rightarrow> pystr \<Rightarrow> pystr list" where
  "re_split sep [] = [[]]"
| "re_split sep (c # cs) =
     (if sep c then [] # re_split sep (dropWhile sep cs)
      else (case re_split sep cs of p # ps \<Rightarrow> (c # p) # ps | [] \<Rightarrow> [[c]]))"
  by pat_completeness auto
termination
  by (relation "measure (\<lambda>(sep, s). length s)") (auto simp: length_dropWhile_le le_imp_less_Suc)

text \<open>The class \<^verbatim>\<open>[A-Za-z0-9 ]\<close>.\<close>

definition symbol_char :: "nat \<Rightarrow> bool" where
  "symbol_char c \<longleftrightarrow> (65 \<le> c \<and> c \<le> 90) \<or> (97 \<le> c \<and> c \<le> 122) \<or> (48 \<le> c \<and> c \<le> 57) \<or> c = 32"

text \<open>\<^verbatim>\<open>\*\*\$([A-Za-z0-9 ]{2,20})\*\*\<close>\<close>

definition bold_dollar_pattern :: "item list" where
  "bold_dollar_pattern =
     [Lit (of_char CHR ''*''), Lit (of_char CHR ''*''), Lit (of_char CHR ''$''),
      Run symbol_char 2 20, Lit (of_char CHR ''*''), Lit (of_char CHR ''*'')]"

text \<open>\<^verbatim>\<open>\$([A-Za-z0-9 ]{2,20})\<close>\<close>

definition dollar_pattern :: "item list" where
  "dollar_pattern = [Lit (of_char CHR ''$''), Run symbol_char 2 20]"

text \<open>\<^verbatim>\<open>\[([A-Za-z0-9 ]{2,20})\]\(\<close>\<close>

definition markdown_pattern :: "item list" where
  "markdown_pattern =
     [Lit (of_char CHR ''[''), Run symbol_char 2 20, Lit (of_char CHR '']''),
      Lit (of_char CHR ''('')]"

text \<open>\<^verbatim>\<open>\(([A-Za-z0-9 ]{2,20})\)\<close>\<close>

definition paren_pattern :: "item list" where
  "paren_pattern = [Lit (of_char CHR ''(''), Run symbol_char 2 20, Lit (of_char CHR '')'')]"

text \<open>The class \<^verbatim>\<open>[\s\U00010000-\U0010ffff]\<close>.\<close>

definition leading_glyph :: "nat \<Rightarrow> bool" where
  "leading_glyph c \<longleftrightarrow> is_space c \<or> (65536 \<le> c \<and> c \<le> 1114111)"

text \<open>The class of whitespace, hyphen, en dash (U+2013) and em dash (U+2014).\<close>

definition separator :: "nat \<Rightarrow> bool" where
  "separator c \<longleftrightarrow> is_space c \<or> c = 45 \<or> c = 8211 \<or> c = 8212"

definition extract_token_symbol :: "(nat \<Rightarrow> pystr) \<Rightarrow> pystr \<Rightarrow> pystr" where
  "extract_token_symbol up text =
     (if text = [] then []
      else case re_search bold_dollar_pattern text of
        Some g \<Rightarrow> py_upper up (py_strip g)
      | None \<Rightarrow>
     (case re_search dollar_pattern text of
        Some g \<Rightarrow> py_upper up g
      | None \<Rightarrow>
     (case re_search markdown_pattern text of
        Some g \<Rightarrow> py_upper up (py_strip g)
      | None \<Rightarrow>
     (case re_search paren_pattern text of
        Some g \<Rightarrow> py_upper up (py_strip g)
      | None \<Rightarrow>
     (let clean_text = re_sub_leading leading_glyph text;
          parts = re_split separator clean_text
      in case parts of
           [] \<Rightarrow> []
         | p # _ \<Rightarrow>
             (let symbol = py_strip_chars (of_ascii ''.,:;!?*$'') p
              in if symbol \<noteq> [] then py_upper up (take 20 symbol) else []))))))"

section \<open>Data model\<close>

text \<open>
  The vote type is the string \<^verbatim>\<open>"good"\<close> or \<^verbatim>\<open>"bad"\<close>; it selects the counter
  \<^verbatim>\<open>data[vote_type]\<close> and the voter list \<^verbatim>\<open>data[f"{vote_type}voters"]\<close>.
\<close>

datatype vote_kind = Good | Bad

text \<open>
  An entry of \<^verbatim>\<open>user_data["tokens"]\<close>. The counters are Python integers. The voter
  lists are lists (\<^verbatim>\<open>append\<close>, \<^verbatim>\<open>remove\<close> of the first occurrence). The key
  \<^verbatim>\<open>"symbol"\<close> may be missing in an entry written by an older version.
\<close>

record token_data =
  t_good :: int
  t_bad :: int
  goodvoters :: "int list"
  badvoters :: "int list"
  symbol :: "pystr option"

text \<open>An entry of \<^verbatim>\<open>bot.reputation\<close>, keyed by \<^verbatim>\<open>str(user_id)\<close>.\<close>

record user_data =
  good :: int
  bad :: int
  tokens :: "pystr \<rightharpoonup> token_data"

text \<open>An entry of \<^verbatim>\<open>bot.reputation_log\<close> and of \<^verbatim>\<open>bot.current_votes\<close>.\<close>

record vote =
  vote_id :: pystr
  voter_id :: int
  author_id :: int
  token_address :: pystr
  vote_type :: vote_kind
  message_id :: int
  timestamp :: pystr
  reversed :: bool

text \<open>An entry of \<^verbatim>\<open>bot.token_messages\<close>.\<close>

record message_info =
  author :: int
  msg_token_address :: pystr
  token_symbol :: pystr

text \<open>
  A key of \<^verbatim>\<open>bot.reputation_log_channels\<close>: the integer guild id when a command stores
  it, a string once the dictionary has been through JSON.
\<close>

datatype pykey = IntKey int | StrKey pystr

text \<open>
  The vote log is a Python dictionary whose insertion order is the order of creation, so
  it is an association list: \<open>map_of\<close> reads it, \<open>AList.update\<close> replaces a value in place
  or appends a new key at the end, \<open>AList.delete\<close> removes a key.

  \<^verbatim>\<open>bot.current_votes[vote_id]\<close> is the same object as \<^verbatim>\<open>bot.reputation_log[vote_id]\<close>
  until the next restart. The only mutation of a vote is \<^verbatim>\<open>vote['reversed'] = True\<close>, and
  each place that does it deletes the key from \<^verbatim>\<open>bot.current_votes\<close> in the next
  statement, so holding a copy in \<open>current_votes\<close> loses nothing.
\<close>

type_synonym vote_log = "(pystr \<times> vote) list"

record state =
  reputation :: "pystr \<rightharpoonup> user_data"
  reputation_log :: vote_log
  current_votes :: vote_log
  disabled_voters :: "int set"
  reputation_log_channels :: "(pykey \<times> int) list"
  token_messages :: "int \<rightharpoonup> message_info"

text \<open>The module-level initialisation.\<close>

definition init_state :: state where
  "init_state =
     \<lparr>reputation = Map.empty, reputation_log = [], current_votes = [],
      disabled_voters = {}, reputation_log_channels = [], token_messages = Map.empty\<rparr>"

text \<open>Reading and writing \<^verbatim>\<open>data[vote_type]\<close> and \<^verbatim>\<open>data[f"{vote_type}voters"]\<close>.\<close>

fun get_count :: "vote_kind \<Rightarrow> user_data \<Rightarrow> int" where
  "get_count Good u = good u"
| "get_count Bad u = bad u"

fun set_count :: "vote_kind \<Rightarrow> int \<Rightarrow> user_data \<Rightarrow> user_data" where
  "set_count Good n u = u\<lparr>good := n\<rparr>"
| "set_count Bad n u = u\<lparr>bad := n\<rparr>"

fun get_tcount :: "vote_kind \<Rightarrow> token_data \<Rightarrow> int" where
  "get_tcount Good t = t_good t"
| "get_tcount Bad t = t_bad t"

fun set_tcount :: "vote_kind \<Rightarrow> int \<Rightarrow> token_data \<Rightarrow> token_data" where
  "set_tcount Good n t = t\<lparr>t_good := n\<rparr>"
| "set_tcount Bad n t = t\<lparr>t_bad := n\<rparr>"

fun voters :: "vote_kind \<Rightarrow> token_data \<Rightarrow> int list" where
  "voters Good t = goodvoters t"
| "voters Bad t = badvoters t"

fun set_voters :: "vote_kind \<Rightarrow> int list \<Rightarrow> token_data \<Rightarrow> token_data" where
  "set_voters Good vs t = t\<lparr>goodvoters := vs\<rparr>"
| "set_voters Bad vs t = t\<lparr>badvoters := vs\<rparr>"

definition unknown :: pystr where
  "unknown = of_ascii ''unknown''"

definition admin_added :: pystr where
  "admin_added = of_ascii ''admin_added''"

text \<open>The two vote glyphs: U+1F7E2 (green circle) and U+1F534 (red circle).\<close>

definition green_circle :: pystr where
  "green_circle = [128994]"

definition red_circle :: pystr where
  "red_circle = [128308]"

text \<open>
  \<^verbatim>\<open>token_address[:6] + "..." if token_address != "unknown" else "unknown"\<close>, written out
  in \<^verbatim>\<open>load_data\<close> and in \<^verbatim>\<open>on_message\<close>.
\<close>

definition default_symbol :: "pystr \<Rightarrow> pystr" where
  "default_symbol addr =
     (if addr \<noteq> unknown then take 6 addr @ of_ascii ''...'' else unknown)"

section \<open>What a handler does besides changing the state\<close>

datatype audit = Vote_Added | Vote_Switched | Vote_Removed | Votes_Added_by_Admin

text \<open>The three lists of \<^verbatim>\<open>results\<close> in \<^verbatim>\<open>repremove\<close>.\<close>

record results =
  success :: "pystr list"
  invalid :: "pystr list"
  already_reversed :: "pystr list"

datatype response =
    Permission_Required
  | Amount_Must_Be_Positive
  | Added int
  | Removed results
  | Voting_Toggled bool
  | Log_Channel_Set

text \<open>
  The calls a handler issues, in order: \<^verbatim>\<open>reaction.remove(user)\<close>, \<^verbatim>\<open>user.send\<close>,
  \<^verbatim>\<open>ctx.send\<close>, \<^verbatim>\<open>logging.error\<close>, \<^verbatim>\<open>traceback.print_exc\<close>, \<^verbatim>\<open>log_channel.send\<close>
  with the embed's title, \<^verbatim>\<open>save_data\<close>, and the reply to a command.
\<close>

datatype effect =
    Remove_Reaction int
  | Direct_Message int
  | Channel_Notice int
  | Logging_Error
  | Traceback
  | Audit_Log audit
  | Save_Data
  | Respond response

text \<open>
  What the outside world answers during one handler: the identifier \<^verbatim>\<open>uuid.uuid4()\<close>
  returns, the clock, and which of the Discord calls succeed.
\<close>

datatype send_outcome = Sent | Forbidden | Send_Failed

record env =
  uuid4 :: pystr
  now :: pystr
  reaction_remove_ok :: bool
  dm_outcome :: send_outcome
  ctx_send_ok :: bool
  guild_found :: bool
  member_found :: bool
  channel_found :: "int \<Rightarrow> bool"
  log_send_ok :: bool

text \<open>What a reaction event carries: the user, the message, the emoji and the guild.\<close>

record reaction_event =
  user_id :: int
  user_bot :: bool
  ev_message_id :: int
  emoji :: pystr
  guild_id :: int

text \<open>
  The block that sends an embed to the guild's log channel, shared in shape by the three
  handlers: nothing when no channel is configured (\<^verbatim>\<open>if log_channel_id\<close> also skips the
  id 0) or the channel is gone; an exception of \<^verbatim>\<open>send\<close> leaves the handler's \<^verbatim>\<open>try\<close>
  before \<^verbatim>\<open>save_data\<close>.
\<close>

definition log_and_save :: "env \<Rightarrow> state \<Rightarrow> int \<Rightarrow> audit \<Rightarrow> effect list" where
  "log_and_save e st gid title =
     (case map_of (reputation_log_channels st) (IntKey gid) of
        None \<Rightarrow> [Save_Data]
      | Some log_channel_id \<Rightarrow>
          if log_channel_id \<noteq> 0 \<and> channel_found e log_channel_id
          then (if log_send_ok e then [Audit_Log title, Save_Data]
                else [Audit_Log title, Traceback])
          else [Save_Data])"

section \<open>Reaction handlers\<close>

text \<open>
  The part of \<^verbatim>\<open>on_message\<close> that changes the state: for a message of the special user
  whose embed footer names a member, the bot posts a message of its own and stores its
  context under that message's id. The address is the result of
  \<^verbatim>\<open>extract_token_address(embed)\<close>, taken as given; \<open>up\<close> is the upper-case table of
  \<open>py_upper\<close>.
\<close>

definition on_message ::
  "(nat \<Rightarrow> pystr) \<Rightarrow> int \<Rightarrow> int \<Rightarrow> pystr \<Rightarrow> pystr \<Rightarrow> state \<Rightarrow> state" where
  "on_message up bot_message_id member_id addr content st =
     (let extracted = extract_token_symbol up content;
          tsym = (if addr = unknown \<or> extracted = [] then default_symbol addr else extracted)
      in st\<lparr>token_messages := (token_messages st)(bot_message_id \<mapsto>
            \<lparr>author = member_id, msg_token_address = addr, token_symbol = tsym\<rparr>)\<rparr>)"

text \<open>
  The self-vote branch of \<^verbatim>\<open>on_reaction_add\<close>: remove the reaction, then a direct message,
  then a notice in the channel when direct messages are closed; any other exception ends
  in \<^verbatim>\<open>logging.error\<close>.
\<close>

definition self_vote_effects :: "env \<Rightarrow> int \<Rightarrow> effect list" where
  "self_vote_effects e uid =
     (if \<not> reaction_remove_ok e then [Remove_Reaction uid, Logging_Error]
      else (case dm_outcome e of
              Sent \<Rightarrow> [Remove_Reaction uid, Direct_Message uid]
            | Forbidden \<Rightarrow>
                (if ctx_send_ok e then [Remove_Reaction uid, Direct_Message uid, Channel_Notice uid]
                 else [Remove_Reaction uid, Direct_Message uid, Channel_Notice uid, Logging_Error])
            | Send_Failed \<Rightarrow> [Remove_Reaction uid, Direct_Message uid, Logging_Error]))"

text \<open>
  Lines 552 to 568: the token entry the vote works on, created with zero counters or
  taken from the user's tokens with its symbol overwritten.
\<close>

definition init_token_data :: "pystr \<Rightarrow> pystr \<Rightarrow> user_data \<Rightarrow> token_data" where
  "init_token_data addr tsym u =
     (case tokens u addr of
        None \<Rightarrow> \<lparr>t_good = 0, t_bad = 0, goodvoters = [], badvoters = [], symbol = Some tsym\<rparr>
      | Some t \<Rightarrow>
          (let t1 = (if symbol t = None \<or> symbol t = Some unknown
                        \<or> (case symbol t of None \<Rightarrow> False | Some x \<Rightarrow> length x < 3)
                     then t\<lparr>symbol := Some tsym\<rparr> else t)
           in t1\<lparr>symbol := Some tsym\<rparr>))"

text \<open>
  One round of the loop of lines 572 to 577, on the user's counters, the token entry and
  the flag \<^verbatim>\<open>existing_votes\<close>. The decrements are plain \<^verbatim>\<open>-= 1\<close>.
\<close>

definition remove_existing ::
  "int \<Rightarrow> user_data \<times> token_data \<times> bool \<Rightarrow> vote_kind \<Rightarrow> user_data \<times> token_data \<times> bool" where
  "remove_existing voter acc vt =
     (case acc of (u, t, existing) \<Rightarrow>
        if voter \<in> set (voters vt t)
        then (set_count vt (get_count vt u - 1) u,
              set_tcount vt (get_tcount vt t - 1) (set_voters vt (remove1 voter (voters vt t)) t),
              True)
        else (u, t, existing))"

text \<open>Lines 580 to 582.\<close>

definition add_new_vote :: "int \<Rightarrow> vote_kind \<Rightarrow> user_data \<times> token_data \<Rightarrow> user_data \<times> token_data" where
  "add_new_vote voter nv ut =
     (case ut of (u, t) \<Rightarrow>
        (set_count nv (get_count nv u + 1) u,
         set_tcount nv (get_tcount nv t + 1) (set_voters nv (voters nv t @ [voter]) t)))"

definition on_reaction_add :: "env \<Rightarrow> reaction_event \<Rightarrow> state \<Rightarrow> state \<times> effect list" where
  "on_reaction_add e ev st =
     (if user_bot ev \<or> user_id ev \<in> disabled_voters st then (st, [])
      else case token_messages st (ev_message_id ev) of
        None \<Rightarrow> (st, [])
      | Some info \<Rightarrow>
          if user_id ev = author info then (st, self_vote_effects e (user_id ev))
          else if emoji ev \<noteq> green_circle \<and> emoji ev \<noteq> red_circle then (st, [])
          else
            (let addr = msg_token_address info;
                 tsym = token_symbol info;
                 voter = user_id ev;
                 nv = (if emoji ev = green_circle then Good else Bad);
                 akey = py_str (author info);
                 u0 = (case reputation st akey of
                         None \<Rightarrow> \<lparr>good = 0, bad = 0, tokens = Map.empty\<rparr>
                       | Some u \<Rightarrow> u);
                 t0 = init_token_data addr tsym u0;
                 removed = foldl (remove_existing voter) (u0, t0, False) [Good, Bad];
                 existing = snd (snd removed);
                 added = add_new_vote voter nv (fst removed, fst (snd removed));
                 u1 = (fst added)\<lparr>tokens := (tokens (fst added))(addr \<mapsto> snd added)\<rparr>;
                 vote_data = \<lparr>vote_id = uuid4 e, voter_id = voter, author_id = author info,
                              token_address = addr, vote_type = nv,
                              message_id = ev_message_id ev, timestamp = now e,
                              reversed = False\<rparr>;
                 st1 = st\<lparr>reputation := (reputation st)(akey \<mapsto> u1),
                          reputation_log := AList.update (uuid4 e) vote_data (reputation_log st),
                          current_votes := AList.update (uuid4 e) vote_data (current_votes st)\<rparr>
             in (st1, log_and_save e st1 (guild_id ev)
                        (if existing then Vote_Switched else Vote_Added))))"

text \<open>The condition of lines 672 to 677.\<close>

definition vote_matches :: "int \<Rightarrow> int \<Rightarrow> pystr \<Rightarrow> vote_kind \<Rightarrow> int \<Rightarrow> vote \<Rightarrow> bool" where
  "vote_matches voter auth addr vt mid v \<longleftrightarrow>
     voter_id v = voter \<and> author_id v = auth \<and> token_address v = addr \<and>
     vote_type v = vt \<and> message_id v = mid \<and> \<not> reversed v"

text \<open>
  The loop of lines 671 to 681 over a snapshot of the log's items: each matching vote
  object is set to reversed where it stands, and its key is deleted from
  \<^verbatim>\<open>bot.current_votes\<close> when it is there. The loop has no \<^verbatim>\<open>break\<close>.
\<close>

fun update_logs :: "(vote \<Rightarrow> bool) \<Rightarrow> vote_log \<Rightarrow> vote_log \<Rightarrow> vote_log \<times> vote_log" where
  "update_logs m [] cv = ([], cv)"
| "update_logs m ((vid, v) # items) cv =
     (if m v
      then (let r = update_logs m items
                      (if vid \<in> fst ` set cv then AList.delete vid cv else cv)
            in ((vid, v\<lparr>reversed := True\<rparr>) # fst r, snd r))
      else (let r = update_logs m items cv in ((vid, v) # fst r, snd r)))"

definition on_raw_reaction_remove ::
  "env \<Rightarrow> reaction_event \<Rightarrow> state \<Rightarrow> state \<times> effect list" where
  "on_raw_reaction_remove e ev st =
     (if \<not> guild_found e \<or> user_id ev \<in> disabled_voters st then (st, [])
      else if \<not> member_found e then (st, [])
      else if user_bot ev then (st, [])
      else case token_messages st (ev_message_id ev) of
        None \<Rightarrow> (st, [])
      | Some info \<Rightarrow>
          if user_id ev = author info then (st, [])
          else if emoji ev \<noteq> green_circle \<and> emoji ev \<noteq> red_circle then (st, [])
          else
            (let addr = msg_token_address info;
                 voter = user_id ev;
                 vt = (if emoji ev = green_circle then Good else Bad);
                 akey = py_str (author info)
             in case reputation st akey of
                  None \<Rightarrow> (st, [])
                | Some u \<Rightarrow>
                    (case tokens u addr of
                       None \<Rightarrow> (st, [])
                     | Some t \<Rightarrow>
                         if voter \<in> set (voters vt t)
                         then
                           (let t1 = set_voters vt (remove1 voter (voters vt t)) t;
                                t2 = set_tcount vt (max 0 (get_tcount vt t1 - 1)) t1;
                                u1 = u\<lparr>tokens := (tokens u)(addr \<mapsto> t2)\<rparr>;
                                u2 = set_count vt (max 0 (get_count vt u1 - 1)) u1;
                                r = update_logs
                                      (vote_matches voter (author info) addr vt (ev_message_id ev))
                                      (reputation_log st) (current_votes st);
                                st1 = st\<lparr>reputation := (reputation st)(akey \<mapsto> u2),
                                         reputation_log := fst r,
                                         current_votes := snd r\<rparr>
                            in (st1, log_and_save e st1 (guild_id ev) Vote_Removed))
                         else (st, []))))"

section \<open>Admin commands\<close>

text \<open>
  One round of the loop of \<^verbatim>\<open>repadd\<close>. The user's entry was created just before the
  loop, so the \<^verbatim>\<open>KeyError\<close> of the increment cannot arise; the branch is there for
  totality and leaves the counters alone.
\<close>

definition repadd_one :: "int \<Rightarrow> int \<Rightarrow> vote_kind \<Rightarrow> state \<Rightarrow> pystr \<times> pystr \<Rightarrow> state" where
  "repadd_one voter auth vt st gen =
     (let vid = fst gen;
          vote_data = \<lparr>vote_id = vid, voter_id = voter, author_id = auth,
                       token_address = admin_added, vote_type = vt, message_id = 0,
                       timestamp = snd gen, reversed = False\<rparr>;
          lg = AList.update vid vote_data (reputation_log st)
      in case reputation st (py_str auth) of
           None \<Rightarrow> st\<lparr>reputation_log := lg\<rparr>
         | Some u \<Rightarrow>
             st\<lparr>reputation := (reputation st)(py_str auth \<mapsto> set_count vt (get_count vt u + 1) u),
                reputation_log := lg,
                current_votes := AList.update vid vote_data (current_votes st)\<rparr>)"

text \<open>
  \<^verbatim>\<open>repadd\<close>. \<open>gen i\<close> is the identifier and the timestamp the \<open>i\<close>-th round of the loop
  draws from \<^verbatim>\<open>uuid.uuid4()\<close> and the clock.
\<close>

definition repadd ::
  "env \<Rightarrow> bool \<Rightarrow> int \<Rightarrow> int \<Rightarrow> int \<Rightarrow> int \<Rightarrow> vote_kind \<Rightarrow> (nat \<Rightarrow> pystr \<times> pystr) \<Rightarrow> state
     \<Rightarrow> state \<times> effect list" where
  "repadd e is_admin gid admin_id usr amount vt gen st =
     (if \<not> is_admin then (st, [Respond Permission_Required])
      else if amount \<le> 0 then (st, [Respond Amount_Must_Be_Positive])
      else
        (let akey = py_str usr;
             st0 = (if reputation st akey = None
                    then st\<lparr>reputation := (reputation st)(akey \<mapsto>
                              \<lparr>good = 0, bad = 0, tokens = Map.empty\<rparr>)\<rparr>
                    else st);
             st1 = foldl (repadd_one admin_id usr vt) st0 (map gen [0 ..< nat amount])
         in (st1,
             Save_Data #
             (case map_of (reputation_log_channels st1) (IntKey gid) of
                None \<Rightarrow> [Respond (Added amount)]
              | Some log_channel_id \<Rightarrow>
                  if log_channel_id \<noteq> 0 \<and> channel_found e log_channel_id
                  then (if log_send_ok e
                        then [Audit_Log Votes_Added_by_Admin, Respond (Added amount)]
                        else [Audit_Log Votes_Added_by_Admin])
                  else [Respond (Added amount)]))))"

definition replogs :: "bool \<Rightarrow> int \<Rightarrow> int \<Rightarrow> state \<Rightarrow> state \<times> effect list" where
  "replogs is_admin gid channel_id st =
     (if \<not> is_admin then (st, [Respond Permission_Required])
      else (st\<lparr>reputation_log_channels :=
                 AList.update (IntKey gid) channel_id (reputation_log_channels st)\<rparr>,
            [Save_Data, Respond Log_Channel_Set]))"

definition repdisable :: "bool \<Rightarrow> int \<Rightarrow> state \<Rightarrow> state \<times> effect list" where
  "repdisable is_admin usr st =
     (if \<not> is_admin then (st, [Respond Permission_Required])
      else if usr \<in> disabled_voters st
      then (st\<lparr>disabled_voters := disabled_voters st - {usr}\<rparr>,
            [Save_Data, Respond (Voting_Toggled True)])
      else (st\<lparr>disabled_voters := insert usr (disabled_voters st)\<rparr>,
            [Save_Data, Respond (Voting_Toggled False)]))"

text \<open>\<^verbatim>\<open>[vid.strip() for vid in vote_ids.split(',')]\<close>\<close>

definition raw_ids :: "pystr \<Rightarrow> pystr list" where
  "raw_ids vote_ids = map py_strip (py_split (of_char CHR '','') vote_ids)"

text \<open>
  Lines 423 to 431 on the author's entry: the user's counter, then for a vote bound to a
  token the token's counter and voter list, every decrement floored at zero.
\<close>

definition remove_from_counts :: "vote \<Rightarrow> user_data \<Rightarrow> user_data" where
  "remove_from_counts v u =
     (let vt = vote_type v;
          u1 = set_count vt (max 0 (get_count vt u - 1)) u
      in if token_address v \<noteq> admin_added
         then (case tokens u1 (token_address v) of
                 None \<Rightarrow> u1
               | Some t \<Rightarrow>
                   (let t1 = set_tcount vt (max 0 (get_tcount vt t - 1)) t;
                        t2 = (if voter_id v \<in> set (voters vt t1)
                              then set_voters vt (remove1 (voter_id v) (voters vt t1)) t1
                              else t1)
                    in u1\<lparr>tokens := (tokens u1)(token_address v \<mapsto> t2)\<rparr>))
         else u1)"

text \<open>One round of the loop of \<^verbatim>\<open>repremove\<close>, lines 409 to 436.\<close>

definition repremove_one :: "state \<times> results \<Rightarrow> pystr \<Rightarrow> state \<times> results" where
  "repremove_one acc vid =
     (case acc of (st, res) \<Rightarrow>
        (case map_of (reputation_log st) vid of
           None \<Rightarrow> (st, res\<lparr>invalid := invalid res @ [vid]\<rparr>)
         | Some v \<Rightarrow>
             if reversed v then (st, res\<lparr>already_reversed := already_reversed res @ [vid]\<rparr>)
             else
               (let akey = py_str (author_id v);
                    rep = (case reputation st akey of
                             None \<Rightarrow> reputation st
                           | Some u \<Rightarrow> (reputation st)(akey \<mapsto> remove_from_counts v u));
                    lg = AList.update vid (v\<lparr>reversed := True\<rparr>) (reputation_log st);
                    cv = (if vid \<in> fst ` set (current_votes st)
                          then AList.delete vid (current_votes st) else current_votes st)
                in (st\<lparr>reputation := rep, reputation_log := lg, current_votes := cv\<rparr>,
                    res\<lparr>success := success res @ [vid]\<rparr>))))"

definition repremove :: "bool \<Rightarrow> pystr \<Rightarrow> state \<Rightarrow> state \<times> effect list" where
  "repremove is_admin vote_ids st =
     (if \<not> is_admin then (st, [Respond Permission_Required])
      else
        (let r = foldl repremove_one
                   (st, \<lparr>success = [], invalid = [], already_reversed = []\<rparr>) (raw_ids vote_ids)
         in (fst r, [Save_Data, Respond (Removed (snd r))])))"

section \<open>Persistence\<close>

text \<open>
  The five files. A file is missing (\<open>None\<close>) or holds what \<^verbatim>\<open>json.dumps\<close> wrote.
  \<^verbatim>\<open>json.load\<close> of \<^verbatim>\<open>json.dumps\<close> gives back equal dictionaries, lists, strings, integers
  and booleans when every key is a string, which holds for \<^verbatim>\<open>bot.reputation\<close> (keys
  \<^verbatim>\<open>str(user_id)\<close> and token addresses), the vote log and the current votes (keys are
  vote ids), so these files hold the values themselves. Two conversions are written
  out: the set of disabled voters is written as a list and read back as a set, and the
  integer keys of \<^verbatim>\<open>bot.reputation_log_channels\<close> are written as strings.
\<close>

record files =
  reputation_json :: "(pystr \<rightharpoonup> user_data) option"
  reputation_log_json :: "vote_log option"
  disabled_voters_json :: "int set option"
  reputation_log_channels_json :: "(pystr \<times> int) list option"
  current_votes_json :: "vote_log option"

definition no_files :: files where
  "no_files =
     \<lparr>reputation_json = None, reputation_log_json = None, disabled_voters_json = None,
      reputation_log_channels_json = None, current_votes_json = None\<rparr>"

definition json_key :: "pykey \<Rightarrow> pystr" where
  "json_key k = (case k of IntKey i \<Rightarrow> py_str i | StrKey x \<Rightarrow> x)"

text \<open>\<^verbatim>\<open>save_data\<close> when every write succeeds.\<close>

definition save_data :: "state \<Rightarrow> files" where
  "save_data st =
     \<lparr>reputation_json = Some (reputation st),
      reputation_log_json = Some (reputation_log st),
      disabled_voters_json = Some (disabled_voters st),
      reputation_log_channels_json =
        Some (map (\<lambda>kv. (json_key (fst kv), snd kv)) (reputation_log_channels st)),
      current_votes_json = Some (current_votes st)\<rparr>"

text \<open>Lines 220 to 224: the symbol of an entry that has none.\<close>

definition backfill_token :: "pystr \<Rightarrow> token_data \<Rightarrow> token_data" where
  "backfill_token addr t =
     (if symbol t = None then t\<lparr>symbol := Some (default_symbol addr)\<rparr> else t)"

definition backfill_user :: "user_data \<Rightarrow> user_data" where
  "backfill_user u = u\<lparr>tokens := (\<lambda>addr. map_option (backfill_token addr) (tokens u addr))\<rparr>"

definition backfill :: "(pystr \<rightharpoonup> user_data) \<Rightarrow> (pystr \<rightharpoonup> user_data)" where
  "backfill r = (\<lambda>k. map_option backfill_user (r k))"

text \<open>
  \<^verbatim>\<open>load_data\<close>: the files are read one after the other, each assigned as it is read;
  the first missing file ends the function (\<^verbatim>\<open>FileNotFoundError\<close>, \<^verbatim>\<open>pass\<close>) with the
  earlier assignments in place and before the symbols are filled in.
\<close>

definition load_data :: "files \<Rightarrow> state \<Rightarrow> state" where
  "load_data fs st =
     (case reputation_json fs of
        None \<Rightarrow> st
      | Some r \<Rightarrow>
     (let st1 = st\<lparr>reputation := r\<rparr> in
      case reputation_log_json fs of
        None \<Rightarrow> st1
      | Some lg \<Rightarrow>
     (let st2 = st1\<lparr>reputation_log := lg\<rparr> in
      case disabled_voters_json fs of
        None \<Rightarrow> st2
      | Some d \<Rightarrow>
     (let st3 = st2\<lparr>disabled_voters := d\<rparr> in
      case reputation_log_channels_json fs of
        None \<Rightarrow> st3
      | Some ch \<Rightarrow>
     (let st4 = st3\<lparr>reputation_log_channels :=
                      foldl (\<lambda>acc kv. AList.update (StrKey (fst kv)) (snd kv) acc) [] ch\<rparr> in
      case current_votes_json fs of
        None \<Rightarrow> st4
      | Some cv \<Rightarrow>
          (let st5 = st4\<lparr>current_votes := cv\<rparr>
           in st5\<lparr>reputation := backfill (reputation st5)\<rparr>))))))"

section \<open>Runs of the bot\<close>

text \<open>
  The bot's memory and the files on disk. The handlers mutate the memory between two
  \<^verbatim>\<open>await\<close>s only, so a run is a sequence of events, each applied whole. A handler that
  reaches \<^verbatim>\<open>save_data\<close> writes the memory to disk.
\<close>

record system =
  bot :: state
  disk :: files

datatype event =
    On_Message "nat \<Rightarrow> pystr" int int pystr pystr
  | On_Reaction_Add env reaction_event
  | On_Raw_Reaction_Remove env reaction_event
  | Rep_Add env bool int int int int vote_kind "nat \<Rightarrow> pystr \<times> pystr"
  | Rep_Remove bool pystr
  | Rep_Disable bool int
  | Rep_Logs bool int int
  | On_Ready
  | Restart

definition commit :: "system \<Rightarrow> state \<times> effect list \<Rightarrow> system" where
  "commit sys r =
     \<lparr>bot = fst r, disk = (if Save_Data \<in> set (snd r) then save_data (fst r) else disk sys)\<rparr>"

fun step :: "system \<Rightarrow> event \<Rightarrow> system" where
  "step sys (On_Message up mid member addr content) =
     sys\<lparr>bot := on_message up mid member addr content (bot sys)\<rparr>"
| "step sys (On_Reaction_Add e ev) = commit sys (on_reaction_add e ev (bot sys))"
| "step sys (On_Raw_Reaction_Remove e ev) = commit sys (on_raw_reaction_remove e ev (bot sys))"
| "step sys (Rep_Add e is_admin gid admin_id usr amount vt gen) =
     commit sys (repadd e is_admin gid admin_id usr amount vt gen (bot sys))"
| "step sys (Rep_Remove is_admin vote_ids) = commit sys (repremove is_admin vote_ids (bot sys))"
| "step sys (Rep_Disable is_admin usr) = commit sys (repdisable is_admin usr (bot sys))"
| "step sys (Rep_Logs is_admin gid channel_id) =
     commit sys (replogs is_admin gid channel_id (bot sys))"
| "step sys On_Ready = sys\<lparr>bot := load_data (disk sys) (bot sys)\<rparr>"
| "step sys Restart = sys\<lparr>bot := load_data (disk sys) init_state\<rparr>"

definition init_system :: system where
  "init_system = \<lparr>bot = init_state, disk = no_files\<rparr>"

definition run :: "event list \<Rightarrow> system" where
  "run evs = foldl step init_system evs"

section \<open>Invariants of the voter lists\<close>

text \<open>
  Mutual exclusion, as the specification states it: no voter is in both voter lists of a
  token.
\<close>

definition mutual_exclusion :: "state \<Rightarrow> bool" where
  "mutual_exclusion st \<longleftrightarrow>
     (\<forall>k u a t v. reputation st k = Some u \<longrightarrow> tokens u a = Some t \<longrightarrow>
        \<not> (v \<in> set (goodvoters t) \<and> v \<in> set (badvoters t)))"

text \<open>
  The inductive form: \<^verbatim>\<open>list.remove\<close> takes out one occurrence only, so the lists must
  also be free of duplicates. The files on disk must satisfy the same, since
  \<^verbatim>\<open>load_data\<close> replaces the memory by them.
\<close>

definition voters_ok :: "token_data \<Rightarrow> bool" where
  "voters_ok t \<longleftrightarrow>
     distinct (goodvoters t) \<and> distinct (badvoters t) \<and>
     set (goodvoters t) \<inter> set (badvoters t) = {}"

definition reputation_ok :: "(pystr \<rightharpoonup> user_data) \<Rightarrow> bool" where
  "reputation_ok r \<longleftrightarrow> (\<forall>k u a t. r k = Some u \<longrightarrow> tokens u a = Some t \<longrightarrow> voters_ok t)"

definition system_ok :: "system \<Rightarrow> bool" where
  "system_ok sys \<longleftrightarrow>
     reputation_ok (reputation (bot sys)) \<and>
     (case reputation_json (disk sys) of None \<Rightarrow> True | Some r \<Rightarrow> reputation_ok r)"

section \<open>The aggregate view\<close>

text \<open>
  What the aggregates show for a user key and a token address: the user's counters and,
  when the user has the token, the token's counters and its two voter sets.
\<close>

definition aggregates ::
  "state \<Rightarrow> pystr \<Rightarrow> pystr \<Rightarrow>
     (int \<times> int \<times> (int \<times> int \<times> int set \<times> int set) option) option" where
  "aggregates st k a =
     (case reputation st k of
        None \<Rightarrow> None
      | Some u \<Rightarrow>
          Some (good u, bad u,
                case tokens u a of
                  None \<Rightarrow> None
                | Some t \<Rightarrow> Some (t_good t, t_bad t, set (goodvoters t), set (badvoters t))))"

section \<open>Concrete scenarios\<close>

text \<open>
  The texts of the scenarios are ASCII, so the upper-case table of the code points beyond
  ASCII is never consulted; this one leaves them as they are.
\<close>

definition no_table :: "nat \<Rightarrow> pystr" where
  "no_table c = [c]"

text \<open>An environment in which every Discord call succeeds, drawing the given vote id.\<close>

definition env0 :: "string \<Rightarrow> env" where
  "env0 vid =
     \<lparr>uuid4 = of_ascii vid, now = of_ascii ''t'', reaction_remove_ok = True, dm_outcome = Sent,
      ctx_send_ok = True, guild_found = True, member_found = True,
      channel_found = (\<lambda>_. True), log_send_ok = True\<rparr>"

text \<open>A reaction of a human user in guild 7.\<close>

definition react :: "int \<Rightarrow> int \<Rightarrow> pystr \<Rightarrow> reaction_event" where
  "react uid mid g =
     \<lparr>user_id = uid, user_bot = False, ev_message_id = mid, emoji = g, guild_id = 7\<rparr>"

text \<open>
  Author 1 is announced with token \<^verbatim>\<open>So1\<close> under message 100; voter 2 reacts with the
  green glyph and then with the red one.
\<close>

definition switch_events :: "event list" where
  "switch_events =
     [On_Message no_table 100 1 (of_ascii ''So1'') (of_ascii ''$ABC''),
      On_Reaction_Add (env0 ''a'') (react 2 100 green_circle),
      On_Reaction_Add (env0 ''b'') (react 2 100 red_circle)]"

text \<open>
  Voters 2 and 3 vote good, voter 2 switches to bad, an administrator removes voter 2's
  first vote by its id, and voter 3 switches to bad.
\<close>

definition negative_events :: "event list" where
  "negative_events =
     [On_Message no_table 100 1 (of_ascii ''So1'') (of_ascii ''$ABC''),
      On_Reaction_Add (env0 ''a'') (react 2 100 green_circle),
      On_Reaction_Add (env0 ''b'') (react 3 100 green_circle),
      On_Reaction_Add (env0 ''c'') (react 2 100 red_circle),
      Rep_Remove True (of_ascii ''a''),
      On_Reaction_Add (env0 ''d'') (react 3 100 red_circle)]"

text \<open>Voter 2 votes good, bad and good again on the same message.\<close>

definition double_match_events :: "event list" where
  "double_match_events =
     [On_Message no_table 100 1 (of_ascii ''So1'') (of_ascii ''$ABC''),
      On_Reaction_Add (env0 ''a'') (react 2 100 green_circle),
      On_Reaction_Add (env0 ''b'') (react 2 100 red_circle),
      On_Reaction_Add (env0 ''c'') (react 2 100 green_circle)]"

text \<open>The vote these scenarios record for author 1 under message 100.\<close>

definition vote_of :: "string \<Rightarrow> int \<Rightarrow> vote_kind \<Rightarrow> vote" where
  "vote_of vid voter vt =
     \<lparr>vote_id = of_ascii vid, voter_id = voter, author_id = 1, token_address = of_ascii ''So1'',
      vote_type = vt, message_id = 100, timestamp = of_ascii ''t'', reversed = False\<rparr>"

text \<open>What a log shows of each record: its id, its type and whether it is reversed.\<close>

definition log_summary :: "vote_log \<Rightarrow> (pystr \<times> vote_kind \<times> bool) list" where
  "log_summary lg = map (\<lambda>kv. (fst kv, vote_type (snd kv), reversed (snd kv))) lg"

text \<open>The good and bad counters of a user and of one of the user's tokens.\<close>

definition counters :: "state \<Rightarrow> int \<Rightarrow> pystr \<Rightarrow> (int \<times> int \<times> int \<times> int) option" where
  "counters st uid addr =
     (case reputation st (py_str uid) of
        None \<Rightarrow> None
      | Some u \<Rightarrow>
          (case tokens u addr of
             None \<Rightarrow> None
           | Some t \<Rightarrow> Some (good u, bad u, t_good t, t_bad t)))"

text \<open>The state in which message 100 is tracked for author 1 and nobody has voted.\<close>

definition tracked_only :: state where
  "tracked_only = bot (run [On_Message no_table 100 1 (of_ascii ''So1'') (of_ascii ''$ABC'')])"

text \<open>Message 100 is tracked and voter 2 has voted good.\<close>

definition one_vote_events :: "event list" where
  "one_vote_events =
     [On_Message no_table 100 1 (of_ascii ''So1'') (of_ascii ''$ABC''),
      On_Reaction_Add (env0 ''a'') (react 2 100 green_circle)]"

text \<open>
  A state as \<^verbatim>\<open>load_data\<close> leaves it when \<^verbatim>\<open>reputation.json\<close> holds no entry for the
  author of a logged vote: one active record, no aggregates.
\<close>

definition orphan_state :: state where
  "orphan_state =
     init_state\<lparr>reputation_log := [(of_ascii ''a'', vote_of ''a'' 2 Good)],
                current_votes := [(of_ascii ''a'', vote_of ''a'' 2 Good)]\<rparr>"

text \<open>
  A state with two token entries written before the symbol field existed, one under an
  address and one under the unknown sentinel.
\<close>

definition legacy_state :: state where
  "legacy_state =
     init_state\<lparr>reputation := [py_str 1 \<mapsto> \<lparr>good = 1, bad = 0, tokens =
        [of_ascii ''So1abcdefgh'' \<mapsto>
           \<lparr>t_good = 1, t_bad = 0, goodvoters = [2], badvoters = [], symbol = None\<rparr>,
         unknown \<mapsto>
           \<lparr>t_good = 0, t_bad = 1, goodvoters = [], badvoters = [3], symbol = None\<rparr>]\<rparr>]\<rparr>"

section \<open>The symbol extractor\<close>

lemmas extractor_defs =
  extract_token_symbol_def of_ascii_def bold_dollar_pattern_def dollar_pattern_def
  markdown_pattern_def paren_pattern_def symbol_char_def py_upper_def py_strip_def is_space_def
  re_sub_leading_def leading_glyph_def separator_def py_strip_chars_def








section \<open>Evaluating concrete runs\<close>

lemmas run_defs = run_def init_system_def init_state_def no_files_def commit_def
  on_message_def on_reaction_add_def env0_def react_def green_circle_def red_circle_def
  init_token_data_def remove_existing_def add_new_vote_def log_and_save_def py_str_def
  save_data_def unknown_def default_symbol_def Let_def
  repremove_def repremove_one_def remove_from_counts_def raw_ids_def admin_added_def
  on_raw_reaction_remove_def vote_matches_def self_vote_effects_def

section \<open>Vote switch\<close>

text \<open>
  C1 on the code: after voter 2 has switched from good to bad, the log holds the good
  record and the bad record, neither reversed, and both ids are in the current votes.
  \<^verbatim>\<open>on_reaction_add\<close> takes the old stance out of the counters and the voter list, and
  never touches the old record.
\<close>

theorem switch_leaves_old_record_active:
  "log_summary (reputation_log (bot (run switch_events))) =
     [(of_ascii ''a'', Good, False), (of_ascii ''b'', Bad, False)] \<and>
   log_summary (current_votes (bot (run switch_events))) =
     [(of_ascii ''a'', Good, False), (of_ascii ''b'', Bad, False)]"
  by (simp add: switch_events_def log_summary_def run_defs extractor_defs)

section \<open>Counters below zero\<close>

text \<open>
  C3 on the code: after the run \<open>negative_events\<close> the good counter of author 1 and the
  good counter of the token are both \<open>-1\<close>. The administrator's removal of the stale
  record floors the counters at zero while voter 3 is still in the good list; voter 3's
  switch then subtracts one without a floor.
\<close>

theorem switch_makes_counters_negative:
  "counters (bot (run negative_events)) 1 (of_ascii ''So1'') = Some (- 1, 2, - 1, 2)"
  by (simp add: negative_events_def counters_def run_defs extractor_defs)

section \<open>Removal reconciliation\<close>

lemma update_logs_fst:
  "fst (update_logs m lg cv) =
     map (\<lambda>kv. if m (snd kv) then (fst kv, (snd kv)\<lparr>reversed := True\<rparr>) else kv) lg"
  by (induction lg arbitrary: cv) (auto simp: Let_def)

lemma delete_absent: "k \<notin> fst ` set al \<Longrightarrow> filter (\<lambda>kv. fst kv \<noteq> k) al = al"
  by (induction al) auto

lemma update_logs_snd_set:
  "snd (update_logs m lg cv) =
     filter (\<lambda>kv. fst kv \<notin> fst ` {x \<in> set lg. m (snd x)}) cv"
proof (induction lg arbitrary: cv)
  case Nil
  then show ?case by simp
next
  case (Cons p lg)
  obtain vid v where p: "p = (vid, v)" by (cases p)
  have del: "(if vid \<in> fst ` set cv then AList.delete vid cv else cv)
               = filter (\<lambda>kv. fst kv \<noteq> vid) cv"
    by (auto simp: AList.delete_eq delete_absent case_prod_unfold intro: filter_cong)
  show ?case
  proof (cases "m v")
    case True
    have "snd (update_logs m (p # lg) cv)
            = filter (\<lambda>kv. fst kv \<notin> fst ` {x \<in> set lg. m (snd x)})
                (filter (\<lambda>kv. fst kv \<noteq> vid) cv)"
      using True Cons.IH del by (simp add: p Let_def)
    also have "\<dots> = filter (\<lambda>kv. fst kv \<notin> insert vid (fst ` {x \<in> set lg. m (snd x)})) cv"
      by (auto intro: filter_cong)
    also have "insert vid (fst ` {x \<in> set lg. m (snd x)}) = fst ` {x \<in> set (p # lg). m (snd x)}"
      using True by (force simp: p)
    finally show ?thesis .
  next
    case False
    have "{x \<in> set (p # lg). m (snd x)} = {x \<in> set lg. m (snd x)}"
      using False by (auto simp: p)
    then show ?thesis using False Cons.IH by (simp add: p Let_def)
  qed
qed

lemma update_logs_snd:
  "snd (update_logs m lg cv) =
     filter (\<lambda>kv. fst kv \<notin> fst ` set (filter (\<lambda>x. m (snd x)) lg)) cv"
  by (simp add: update_logs_snd_set)

lemma glyphs_distinct: "green_circle \<noteq> red_circle"
  by (simp add: green_circle_def red_circle_def)

lemma log_and_save_cases:
  "log_and_save e st gid title \<in>
     {[Save_Data], [Audit_Log title, Save_Data], [Audit_Log title, Traceback]}"
  by (simp add: log_and_save_def split: option.splits)

text \<open>
  C2, as stated, fails: with two active records that match (the first and the third vote
  of \<open>double_match_events\<close>), removing the green reaction reverses both, the older one
  included, and the handler issues \<^verbatim>\<open>save_data\<close> and nothing else.
\<close>

theorem removal_reverses_older_match_too:
  "log_summary (reputation_log (bot (run double_match_events))) =
     [(of_ascii ''a'', Good, False), (of_ascii ''b'', Bad, False), (of_ascii ''c'', Good, False)] \<and>
   log_summary (reputation_log (fst (on_raw_reaction_remove (env0 ''x'')
        (react 2 100 green_circle) (bot (run double_match_events))))) =
     [(of_ascii ''a'', Good, True), (of_ascii ''b'', Bad, False), (of_ascii ''c'', Good, True)] \<and>
   log_summary (current_votes (fst (on_raw_reaction_remove (env0 ''x'')
        (react 2 100 green_circle) (bot (run double_match_events))))) =
     [(of_ascii ''b'', Bad, False)] \<and>
   snd (on_raw_reaction_remove (env0 ''x'') (react 2 100 green_circle)
        (bot (run double_match_events))) = [Save_Data]"
  by (simp add: double_match_events_def log_summary_def run_defs extractor_defs)

text \<open>
  C2, amended: when removal reconciliation applies (the voter is in the voter list of the
  removed glyph's type), every active record matching (voter, author, token, type, source
  message) is set to reversed and its id leaves the current votes, however many match;
  all other records stay as they were; the handler reports nothing but the "Vote Removed"
  embed, when a log channel is configured, and the save.
\<close>

theorem removal_reverses_every_match:
  assumes "guild_found e" and "member_found e" and "\<not> user_bot ev"
    and "user_id ev \<notin> disabled_voters st"
    and "token_messages st (ev_message_id ev) = Some info"
    and "user_id ev \<noteq> author info"
    and "emoji ev = green_circle \<and> vt = Good \<or> emoji ev = red_circle \<and> vt = Bad"
    and "reputation st (py_str (author info)) = Some u"
    and "tokens u (msg_token_address info) = Some t"
    and "user_id ev \<in> set (voters vt t)"
  shows "reputation_log (fst (on_raw_reaction_remove e ev st)) =
           map (\<lambda>kv. if vote_matches (user_id ev) (author info) (msg_token_address info) vt
                          (ev_message_id ev) (snd kv)
                      then (fst kv, (snd kv)\<lparr>reversed := True\<rparr>) else kv)
               (reputation_log st) \<and>
         current_votes (fst (on_raw_reaction_remove e ev st)) =
           filter (\<lambda>kv. fst kv \<notin> fst ` set (filter (\<lambda>x.
                     vote_matches (user_id ev) (author info) (msg_token_address info) vt
                       (ev_message_id ev) (snd x)) (reputation_log st)))
               (current_votes st) \<and>
         snd (on_raw_reaction_remove e ev st) \<in>
           {[Save_Data], [Audit_Log Vote_Removed, Save_Data], [Audit_Log Vote_Removed, Traceback]}"
proof -
  have vt: "(if emoji ev = green_circle then Good else Bad) = vt"
    using assms(7) glyphs_distinct by auto
  have gl: "\<not> (emoji ev \<noteq> green_circle \<and> emoji ev \<noteq> red_circle)"
    using assms(7) by auto
  show ?thesis
    using assms(1-6,8-10) gl log_and_save_cases
    by (simp add: on_raw_reaction_remove_def Let_def vt update_logs_fst update_logs_snd)
qed



lemma double_match_run:
  "bot (run double_match_events) =
     \<lparr>reputation = [py_str 1 \<mapsto> \<lparr>good = 1, bad = 0, tokens = [of_ascii ''So1'' \<mapsto>
         \<lparr>t_good = 1, t_bad = 0, goodvoters = [2], badvoters = [], symbol = Some (of_ascii ''ABC'')\<rparr>]\<rparr>],
      reputation_log = [(of_ascii ''a'', vote_of ''a'' 2 Good), (of_ascii ''b'', vote_of ''b'' 2 Bad),
                        (of_ascii ''c'', vote_of ''c'' 2 Good)],
      current_votes = [(of_ascii ''a'', vote_of ''a'' 2 Good), (of_ascii ''b'', vote_of ''b'' 2 Bad),
                        (of_ascii ''c'', vote_of ''c'' 2 Good)],
      disabled_voters = {}, reputation_log_channels = [],
      token_messages = [100 \<mapsto> \<lparr>author = 1, msg_token_address = of_ascii ''So1'',
                                  token_symbol = of_ascii ''ABC''\<rparr>]\<rparr>"
  by (simp add: double_match_events_def vote_of_def run_defs extractor_defs)


theorem removal_reverses_every_match_witness:
  "guild_found (env0 ''x'') \<and> member_found (env0 ''x'') \<and>
   \<not> user_bot (react 2 100 green_circle) \<and>
   user_id (react 2 100 green_circle) \<notin> disabled_voters (bot (run double_match_events)) \<and>
   log_summary (reputation_log (fst (on_raw_reaction_remove (env0 ''x'')
        (react 2 100 green_circle) (bot (run double_match_events))))) =
     [(of_ascii ''a'', Good, True), (of_ascii ''b'', Bad, False), (of_ascii ''c'', Good, True)] \<and>
   log_summary (current_votes (fst (on_raw_reaction_remove (env0 ''x'')
        (react 2 100 green_circle) (bot (run double_match_events))))) =
     [(of_ascii ''b'', Bad, False)]"
proof -
  let ?e = "env0 ''x''" and ?ev = "react 2 100 green_circle"
  let ?st = "bot (run double_match_events)"
  let ?t = "\<lparr>t_good = 1, t_bad = 0, goodvoters = [2], badvoters = [],
             symbol = Some (of_ascii ''ABC'')\<rparr>"
  let ?u = "\<lparr>good = 1, bad = 0, tokens = [of_ascii ''So1'' \<mapsto> ?t]\<rparr>"
  let ?info = "\<lparr>author = 1, msg_token_address = of_ascii ''So1'',
                token_symbol = of_ascii ''ABC''\<rparr>"
  have h1: "guild_found ?e" and h2: "member_found ?e" by (simp_all add: env0_def)
  have h3: "\<not> user_bot ?ev" by (simp add: react_def)
  have h4: "user_id ?ev \<notin> disabled_voters ?st" by (simp add: double_match_run)
  have h5: "token_messages ?st (ev_message_id ?ev) = Some ?info"
    by (simp add: double_match_run react_def)
  have h6: "user_id ?ev \<noteq> author ?info" by (simp add: react_def)
  have h7: "emoji ?ev = green_circle \<and> Good = Good \<or> emoji ?ev = red_circle \<and> Good = Bad"
    by (simp add: react_def)
  have h8: "reputation ?st (py_str (author ?info)) = Some ?u" by (simp add: double_match_run)
  have h9: "tokens ?u (msg_token_address ?info) = Some ?t" by simp
  have h10: "user_id ?ev \<in> set (voters Good ?t)" by (simp add: react_def)
  note r = removal_reverses_every_match [OF h1 h2 h3 h4 h5 h6 h7 h8 h9 h10]
  have "reputation_log (fst (on_raw_reaction_remove ?e ?ev ?st)) =
          map (\<lambda>kv. if vote_matches (user_id ?ev) (author ?info) (msg_token_address ?info) Good
                          (ev_message_id ?ev) (snd kv)
                      then (fst kv, (snd kv)\<lparr>reversed := True\<rparr>) else kv)
               (reputation_log ?st)"
    by (rule r [THEN conjunct1])
  also have "\<dots> = [(of_ascii ''a'', (vote_of ''a'' 2 Good)\<lparr>reversed := True\<rparr>),
           (of_ascii ''b'', vote_of ''b'' 2 Bad),
           (of_ascii ''c'', (vote_of ''c'' 2 Good)\<lparr>reversed := True\<rparr>)]"
    by (simp add: double_match_run vote_of_def vote_matches_def react_def of_ascii_def)
  finally have lg: "log_summary (reputation_log (fst (on_raw_reaction_remove ?e ?ev ?st))) =
     [(of_ascii ''a'', Good, True), (of_ascii ''b'', Bad, False), (of_ascii ''c'', Good, True)]"
    by (simp add: vote_of_def log_summary_def)
  have "current_votes (fst (on_raw_reaction_remove ?e ?ev ?st)) =
          filter (\<lambda>kv. fst kv \<notin> fst ` set (filter (\<lambda>x.
                     vote_matches (user_id ?ev) (author ?info) (msg_token_address ?info) Good
                       (ev_message_id ?ev) (snd x)) (reputation_log ?st)))
               (current_votes ?st)"
    by (rule r [THEN conjunct2, THEN conjunct1])
  also have "\<dots> = [(of_ascii ''b'', vote_of ''b'' 2 Bad)]"
    by (simp add: double_match_run vote_of_def vote_matches_def react_def of_ascii_def)
  finally have cv: "log_summary (current_votes (fst (on_raw_reaction_remove ?e ?ev ?st))) =
     [(of_ascii ''b'', Bad, False)]"
    by (simp add: vote_of_def log_summary_def)
  show ?thesis
    using h1 h2 h3 h4 lg cv by blast
qed

section \<open>Self-votes and unrecognized glyphs\<close>

text \<open>
  C7, as stated, fails: when the author of tracked message 100 reacts with a glyph that is
  not a vote glyph, the handler removes the reaction and sends the notice. The self-vote
  check of \<^verbatim>\<open>on_reaction_add\<close> stands before the glyph check.
\<close>

theorem self_vote_rejects_unrecognized_glyph:
  "on_reaction_add (env0 ''a'') (react 1 100 (of_ascii ''x'')) tracked_only =
     (tracked_only, [Remove_Reaction 1, Direct_Message 1])"
  by (simp add: tracked_only_def run_defs extractor_defs)

text \<open>
  C7, amended: for a human, enabled actor on a tracked message the self-vote check comes
  before the glyph check. When the actor is the tracked author the state is unchanged and
  the first call issued is the removal of the actor's reaction, followed by the private
  notice when the removal succeeds, whatever the glyph. When the actor is someone else
  and the glyph is not a vote glyph the event is ignored: no state change, no call.
\<close>

theorem self_vote_checked_before_glyph:
  assumes "\<not> user_bot ev" and "user_id ev \<notin> disabled_voters st"
    and "token_messages st (ev_message_id ev) = Some info"
  shows "(user_id ev = author info \<longrightarrow>
            fst (on_reaction_add e ev st) = st \<and>
            take 1 (snd (on_reaction_add e ev st)) = [Remove_Reaction (user_id ev)] \<and>
            (reaction_remove_ok e \<longrightarrow>
               take 2 (snd (on_reaction_add e ev st)) =
                 [Remove_Reaction (user_id ev), Direct_Message (user_id ev)])) \<and>
         (user_id ev \<noteq> author info \<and> emoji ev \<noteq> green_circle \<and> emoji ev \<noteq> red_circle \<longrightarrow>
            on_reaction_add e ev st = (st, []))"
  using assms
  by (auto simp: on_reaction_add_def self_vote_effects_def split: send_outcome.splits)

lemma tracked_only_eq:
  "tracked_only = init_state\<lparr>token_messages := [100 \<mapsto>
      \<lparr>author = 1, msg_token_address = of_ascii ''So1'', token_symbol = of_ascii ''ABC''\<rparr>]\<rparr>"
  by (simp add: tracked_only_def run_defs extractor_defs)

theorem self_vote_checked_before_glyph_witness:
  "\<not> user_bot (react 1 100 (of_ascii ''x'')) \<and>
   user_id (react 1 100 (of_ascii ''x'')) \<notin> disabled_voters tracked_only \<and>
   emoji (react 1 100 (of_ascii ''x'')) \<noteq> green_circle \<and>
   emoji (react 1 100 (of_ascii ''x'')) \<noteq> red_circle \<and>
   fst (on_reaction_add (env0 ''a'') (react 1 100 (of_ascii ''x'')) tracked_only) = tracked_only \<and>
   take 2 (snd (on_reaction_add (env0 ''a'') (react 1 100 (of_ascii ''x'')) tracked_only)) =
     [Remove_Reaction 1, Direct_Message 1] \<and>
   on_reaction_add (env0 ''a'') (react 2 100 (of_ascii ''x'')) tracked_only = (tracked_only, [])"
proof -
  let ?info = "\<lparr>author = 1, msg_token_address = of_ascii ''So1'',
                token_symbol = of_ascii ''ABC''\<rparr>"
  have g: "emoji (react 1 100 (of_ascii ''x'')) \<noteq> green_circle"
          "emoji (react 1 100 (of_ascii ''x'')) \<noteq> red_circle"
          "emoji (react 2 100 (of_ascii ''x'')) \<noteq> green_circle"
          "emoji (react 2 100 (of_ascii ''x'')) \<noteq> red_circle"
    by (simp_all add: react_def of_ascii_def green_circle_def red_circle_def)
  have a1: "\<not> user_bot (react 1 100 (of_ascii ''x''))"
    and a2: "user_id (react 1 100 (of_ascii ''x'')) \<notin> disabled_voters tracked_only"
    and a3: "token_messages tracked_only (ev_message_id (react 1 100 (of_ascii ''x''))) = Some ?info"
    and b1: "\<not> user_bot (react 2 100 (of_ascii ''x''))"
    and b2: "user_id (react 2 100 (of_ascii ''x'')) \<notin> disabled_voters tracked_only"
    and b3: "token_messages tracked_only (ev_message_id (react 2 100 (of_ascii ''x''))) = Some ?info"
    by (simp_all add: react_def tracked_only_eq init_state_def)
  have ok: "reaction_remove_ok (env0 ''a'')" by (simp add: env0_def)
  have u1: "user_id (react 1 100 (of_ascii ''x'')) = author ?info" 
    and u2: "user_id (react 2 100 (of_ascii ''x'')) \<noteq> author ?info"
    and u3: "user_id (react 1 100 (of_ascii ''x'')) = 1" by (simp_all add: react_def)
  show ?thesis
    using self_vote_checked_before_glyph [OF a1 a2 a3, of "env0 ''a''"]
          self_vote_checked_before_glyph [OF b1 b2 b3, of "env0 ''a''"]
          g a1 a2 ok u1 u2 u3
    by metis
qed

section \<open>Admin removal\<close>

lemma get_set_count [simp]: "get_count vt (set_count vt n u) = n"
  by (cases vt) simp_all

lemma tokens_set_count [simp]: "tokens (set_count vt n u) = tokens u"
  by (cases vt) simp_all

lemma get_count_tokens_update [simp]: "get_count vt (u\<lparr>tokens := m\<rparr>) = get_count vt u"
  by (cases vt) simp_all

lemma get_set_tcount [simp]: "get_tcount vt (set_tcount vt n t) = n"
  by (cases vt) simp_all

lemma get_tcount_set_voters [simp]: "get_tcount vt (set_voters vt' vs t) = get_tcount vt t"
  by (cases vt; cases vt') simp_all

lemma voters_set_tcount [simp]: "voters vt (set_tcount vt' n t) = voters vt t"
  by (cases vt; cases vt') simp_all

lemma repremove_single:
  "raw_ids vote_ids = [vid] \<Longrightarrow>
   repremove True vote_ids st =
     (fst (repremove_one (st, \<lparr>success = [], invalid = [], already_reversed = []\<rparr>) vid),
      [Save_Data, Respond (Removed
         (snd (repremove_one (st, \<lparr>success = [], invalid = [], already_reversed = []\<rparr>) vid)))])"
  by (simp add: repremove_def Let_def)

lemma repremove_one_active:
  assumes "map_of (reputation_log st) vid = Some v" and "\<not> reversed v"
  shows "repremove_one (st, res) vid =
     (st\<lparr>reputation :=
           (case reputation st (py_str (author_id v)) of
              None \<Rightarrow> reputation st
            | Some u \<Rightarrow> (reputation st)(py_str (author_id v) \<mapsto> remove_from_counts v u)),
         reputation_log := AList.update vid (v\<lparr>reversed := True\<rparr>) (reputation_log st),
         current_votes := AList.delete vid (current_votes st)\<rparr>,
      res\<lparr>success := success res @ [vid]\<rparr>)"
  using assms by (simp add: repremove_one_def Let_def)

lemma repremove_one_reversed:
  assumes "map_of (reputation_log st) vid = Some v" and "reversed v"
  shows "repremove_one (st, res) vid = (st, res\<lparr>already_reversed := already_reversed res @ [vid]\<rparr>)"
  using assms by (simp add: repremove_one_def)

lemma get_count_set_count:
  "get_count vt' (set_count vt n u) = (if vt' = vt then n else get_count vt' u)"
  by (cases vt; cases vt') simp_all

lemma get_tcount_set_tcount:
  "get_tcount vt' (set_tcount vt n t) = (if vt' = vt then n else get_tcount vt' t)"
  by (cases vt; cases vt') simp_all

lemma voters_set_voters:
  "voters vt' (set_voters vt vs t) = (if vt' = vt then vs else voters vt' t)"
  by (cases vt; cases vt') simp_all

lemma symbol_set_tcount [simp]: "symbol (set_tcount vt n t) = symbol t"
  by (cases vt) simp_all

lemma symbol_set_voters [simp]: "symbol (set_voters vt vs t) = symbol t"
  by (cases vt) simp_all

lemma remove_from_counts_counters:
  "get_count vt' (remove_from_counts v u) =
     (if vt' = vote_type v then max 0 (get_count vt' u - 1) else get_count vt' u)"
  by (simp add: remove_from_counts_def Let_def get_count_set_count split: option.splits)

lemma remove_from_counts_other_tokens:
  "a \<noteq> token_address v \<or> token_address v = admin_added \<Longrightarrow>
   tokens (remove_from_counts v u) a = tokens u a"
  by (auto simp: remove_from_counts_def Let_def split: option.splits)

lemma remove_from_counts_no_token:
  "tokens u (token_address v) = None \<Longrightarrow> tokens (remove_from_counts v u) (token_address v) = None"
  by (auto simp: remove_from_counts_def Let_def)

lemma remove_from_counts_token_entry:
  assumes "token_address v \<noteq> admin_added" and "tokens u (token_address v) = Some t"
  shows "\<exists>t1. tokens (remove_from_counts v u) (token_address v) = Some t1 \<and>
           (\<forall>vt'. get_tcount vt' t1 =
              (if vt' = vote_type v then max 0 (get_tcount vt' t - 1) else get_tcount vt' t)) \<and>
           (\<forall>vt'. voters vt' t1 =
              (if vt' = vote_type v then remove1 (voter_id v) (voters vt' t) else voters vt' t)) \<and>
           symbol t1 = symbol t"
proof (cases "voter_id v \<in> set (voters (vote_type v) t)")
  case True
  then show ?thesis
    using assms
    by (simp add: remove_from_counts_def Let_def get_tcount_set_tcount voters_set_voters)
next
  case False
  then have "remove1 (voter_id v) (voters (vote_type v) t) = voters (vote_type v) t"
    by (simp add: remove1_idem)
  then show ?thesis
    using assms False
    by (auto simp: remove_from_counts_def Let_def get_tcount_set_tcount)
qed

lemma switch_run:
  "bot (run switch_events) =
     \<lparr>reputation = [py_str 1 \<mapsto> \<lparr>good = 0, bad = 1, tokens = [of_ascii ''So1'' \<mapsto>
         \<lparr>t_good = 0, t_bad = 1, goodvoters = [], badvoters = [2],
           symbol = Some (of_ascii ''ABC'')\<rparr>]\<rparr>],
      reputation_log = [(of_ascii ''a'', vote_of ''a'' 2 Good), (of_ascii ''b'', vote_of ''b'' 2 Bad)],
      current_votes = [(of_ascii ''a'', vote_of ''a'' 2 Good), (of_ascii ''b'', vote_of ''b'' 2 Bad)],
      disabled_voters = {}, reputation_log_channels = [],
      token_messages = [100 \<mapsto> \<lparr>author = 1, msg_token_address = of_ascii ''So1'',
                                  token_symbol = of_ascii ''ABC''\<rparr>]\<rparr>"
  by (simp add: switch_events_def vote_of_def run_defs extractor_defs)

text \<open>
  C5, as stated, fails: after voter 2's switch from good to bad the good record
  \<^verbatim>\<open>a\<close> is still active while the good counters are zero; \<^verbatim>\<open>repremove\<close> reports it as
  removed, and the floor at zero leaves every aggregate as it was. The vote is reported
  removed and nothing is decremented.
\<close>

theorem repremove_removed_without_decrement:
  "counters (bot (run switch_events)) 1 (of_ascii ''So1'') = Some (0, 1, 0, 1) \<and>
   snd (repremove True (of_ascii ''a'') (bot (run switch_events))) =
     [Save_Data, Respond (Removed
        \<lparr>success = [of_ascii ''a''], invalid = [], already_reversed = []\<rparr>)] \<and>
   counters (fst (repremove True (of_ascii ''a'') (bot (run switch_events)))) 1 (of_ascii ''So1'') =
     Some (0, 1, 0, 1) \<and>
   reputation (fst (repremove True (of_ascii ''a'') (bot (run switch_events)))) =
     reputation (bot (run switch_events))"
proof -
  have r: "repremove True (of_ascii ''a'') (bot (run switch_events)) =
     ((bot (run switch_events))
        \<lparr>reputation_log := [(of_ascii ''a'', (vote_of ''a'' 2 Good)\<lparr>reversed := True\<rparr>),
                             (of_ascii ''b'', vote_of ''b'' 2 Bad)],
         current_votes := [(of_ascii ''b'', vote_of ''b'' 2 Bad)]\<rparr>,
      [Save_Data, Respond (Removed
        \<lparr>success = [of_ascii ''a''], invalid = [], already_reversed = []\<rparr>)])"
    by (simp add: switch_run vote_of_def repremove_def repremove_one_def remove_from_counts_def
          raw_ids_def admin_added_def py_strip_def is_space_def of_ascii_def Let_def)
  have c: "counters (bot (run switch_events)) 1 (of_ascii ''So1'') = Some (0, 1, 0, 1)"
    by (simp add: switch_run counters_def)
  show ?thesis
    using c by (simp add: r counters_def)
qed

text \<open>
  C5, amended: submitting one active vote id to \<^verbatim>\<open>repremove\<close> twice reports it as removed
  the first time and as already reversed the second time, and the second call leaves the
  whole state as it was. The first call changes the aggregates in this way and in no
  other: the author's counter of the vote's type goes down by one, floored at zero (a
  counter at zero stays at zero); for a vote bound to a token that the author has, that
  token's counter of the vote's type goes down by one, floored at zero, and the voter
  leaves that type's voter list if present; the other counter, the other voter list, the
  symbol, the author's other tokens and every other user are unchanged; when the author
  has no entry, no aggregate changes.
\<close>

theorem repremove_twice:
  assumes "raw_ids vote_ids = [vid]" and "map_of (reputation_log st) vid = Some v"
    and "\<not> reversed v"
  shows "snd (repremove True vote_ids st) =
           [Save_Data, Respond (Removed \<lparr>success = [vid], invalid = [], already_reversed = []\<rparr>)] \<and>
         repremove True vote_ids (fst (repremove True vote_ids st)) =
           (fst (repremove True vote_ids st),
            [Save_Data, Respond (Removed \<lparr>success = [], invalid = [], already_reversed = [vid]\<rparr>)]) \<and>
         (\<forall>k. k \<noteq> py_str (author_id v) \<longrightarrow>
              reputation (fst (repremove True vote_ids st)) k = reputation st k) \<and>
         (reputation st (py_str (author_id v)) = None \<longrightarrow>
              reputation (fst (repremove True vote_ids st)) (py_str (author_id v)) = None) \<and>
         (\<forall>u. reputation st (py_str (author_id v)) = Some u \<longrightarrow>
            (\<exists>u1. reputation (fst (repremove True vote_ids st)) (py_str (author_id v)) = Some u1 \<and>
               (\<forall>vt'. get_count vt' u1 =
                  (if vt' = vote_type v then max 0 (get_count vt' u - 1) else get_count vt' u)) \<and>
               (\<forall>a. a \<noteq> token_address v \<or> token_address v = admin_added \<longrightarrow>
                  tokens u1 a = tokens u a) \<and>
               (token_address v \<noteq> admin_added \<longrightarrow>
                  (tokens u (token_address v) = None \<longrightarrow> tokens u1 (token_address v) = None) \<and>
                  (\<forall>t. tokens u (token_address v) = Some t \<longrightarrow>
                     (\<exists>t1. tokens u1 (token_address v) = Some t1 \<and>
                        (\<forall>vt'. get_tcount vt' t1 =
                           (if vt' = vote_type v then max 0 (get_tcount vt' t - 1)
                            else get_tcount vt' t)) \<and>
                        (\<forall>vt'. voters vt' t1 =
                           (if vt' = vote_type v then remove1 (voter_id v) (voters vt' t)
                            else voters vt' t)) \<and>
                        symbol t1 = symbol t)))))"
proof -
  let ?res = "\<lparr>success = [], invalid = [], already_reversed = []\<rparr>"
  define st1 where "st1 = fst (repremove True vote_ids st)"
  have one: "repremove_one (st, ?res) vid =
     (st\<lparr>reputation :=
           (case reputation st (py_str (author_id v)) of
              None \<Rightarrow> reputation st
            | Some u \<Rightarrow> (reputation st)(py_str (author_id v) \<mapsto> remove_from_counts v u)),
         reputation_log := AList.update vid (v\<lparr>reversed := True\<rparr>) (reputation_log st),
         current_votes := AList.delete vid (current_votes st)\<rparr>,
      ?res\<lparr>success := success ?res @ [vid]\<rparr>)"
    by (rule repremove_one_active [OF assms(2,3)])
  have first: "snd (repremove True vote_ids st) =
      [Save_Data, Respond (Removed \<lparr>success = [vid], invalid = [], already_reversed = []\<rparr>)]"
    by (simp add: repremove_single [OF assms(1)] one)
  have st1: "st1 = st\<lparr>reputation :=
           (case reputation st (py_str (author_id v)) of
              None \<Rightarrow> reputation st
            | Some u \<Rightarrow> (reputation st)(py_str (author_id v) \<mapsto> remove_from_counts v u)),
         reputation_log := AList.update vid (v\<lparr>reversed := True\<rparr>) (reputation_log st),
         current_votes := AList.delete vid (current_votes st)\<rparr>"
    by (simp add: st1_def repremove_single [OF assms(1)] one)
  have look: "map_of (reputation_log st1) vid = Some (v\<lparr>reversed := True\<rparr>)"
    by (simp add: st1 update_conv')
  have rev: "reversed (v\<lparr>reversed := True\<rparr>)" by simp
  have second: "repremove True vote_ids st1 =
      (st1, [Save_Data, Respond (Removed \<lparr>success = [], invalid = [], already_reversed = [vid]\<rparr>)])"
    by (simp add: repremove_single [OF assms(1)] repremove_one_reversed [OF look rev])
  have others: "\<forall>k. k \<noteq> py_str (author_id v) \<longrightarrow> reputation st1 k = reputation st k"
    by (simp add: st1 split: option.splits)
  have none: "reputation st (py_str (author_id v)) = None \<longrightarrow>
              reputation st1 (py_str (author_id v)) = None"
    by (simp add: st1)
  have author: "\<forall>u. reputation st (py_str (author_id v)) = Some u \<longrightarrow>
            (\<exists>u1. reputation st1 (py_str (author_id v)) = Some u1 \<and>
               (\<forall>vt'. get_count vt' u1 =
                  (if vt' = vote_type v then max 0 (get_count vt' u - 1) else get_count vt' u)) \<and>
               (\<forall>a. a \<noteq> token_address v \<or> token_address v = admin_added \<longrightarrow>
                  tokens u1 a = tokens u a) \<and>
               (token_address v \<noteq> admin_added \<longrightarrow>
                  (tokens u (token_address v) = None \<longrightarrow> tokens u1 (token_address v) = None) \<and>
                  (\<forall>t. tokens u (token_address v) = Some t \<longrightarrow>
                     (\<exists>t1. tokens u1 (token_address v) = Some t1 \<and>
                        (\<forall>vt'. get_tcount vt' t1 =
                           (if vt' = vote_type v then max 0 (get_tcount vt' t - 1)
                            else get_tcount vt' t)) \<and>
                        (\<forall>vt'. voters vt' t1 =
                           (if vt' = vote_type v then remove1 (voter_id v) (voters vt' t)
                            else voters vt' t)) \<and>
                        symbol t1 = symbol t))))"
  proof (intro allI impI)
    fix u
    assume u: "reputation st (py_str (author_id v)) = Some u"
    have r: "reputation st1 (py_str (author_id v)) = Some (remove_from_counts v u)"
      using u by (simp add: st1)
    show "\<exists>u1. reputation st1 (py_str (author_id v)) = Some u1 \<and>
               (\<forall>vt'. get_count vt' u1 =
                  (if vt' = vote_type v then max 0 (get_count vt' u - 1) else get_count vt' u)) \<and>
               (\<forall>a. a \<noteq> token_address v \<or> token_address v = admin_added \<longrightarrow>
                  tokens u1 a = tokens u a) \<and>
               (token_address v \<noteq> admin_added \<longrightarrow>
                  (tokens u (token_address v) = None \<longrightarrow> tokens u1 (token_address v) = None) \<and>
                  (\<forall>t. tokens u (token_address v) = Some t \<longrightarrow>
                     (\<exists>t1. tokens u1 (token_address v) = Some t1 \<and>
                        (\<forall>vt'. get_tcount vt' t1 =
                           (if vt' = vote_type v then max 0 (get_tcount vt' t - 1)
                            else get_tcount vt' t)) \<and>
                        (\<forall>vt'. voters vt' t1 =
                           (if vt' = vote_type v then remove1 (voter_id v) (voters vt' t)
                            else voters vt' t)) \<and>
                        symbol t1 = symbol t)))"
    proof (rule exI [of _ "remove_from_counts v u"], intro conjI)
      show "reputation st1 (py_str (author_id v)) = Some (remove_from_counts v u)" by (rule r)
    next
      show "\<forall>vt'. get_count vt' (remove_from_counts v u) =
              (if vt' = vote_type v then max 0 (get_count vt' u - 1) else get_count vt' u)"
        by (intro allI) (rule remove_from_counts_counters)
    next
      show "\<forall>a. a \<noteq> token_address v \<or> token_address v = admin_added \<longrightarrow>
                tokens (remove_from_counts v u) a = tokens u a"
        by (intro allI impI) (rule remove_from_counts_other_tokens)
    next
      show "token_address v \<noteq> admin_added \<longrightarrow>
              (tokens u (token_address v) = None \<longrightarrow>
                 tokens (remove_from_counts v u) (token_address v) = None) \<and>
              (\<forall>t. tokens u (token_address v) = Some t \<longrightarrow>
                 (\<exists>t1. tokens (remove_from_counts v u) (token_address v) = Some t1 \<and>
                    (\<forall>vt'. get_tcount vt' t1 =
                       (if vt' = vote_type v then max 0 (get_tcount vt' t - 1)
                        else get_tcount vt' t)) \<and>
                    (\<forall>vt'. voters vt' t1 =
                       (if vt' = vote_type v then remove1 (voter_id v) (voters vt' t)
                        else voters vt' t)) \<and>
                    symbol t1 = symbol t))"
      proof (intro impI conjI allI)
        assume "tokens u (token_address v) = None"
        then show "tokens (remove_from_counts v u) (token_address v) = None"
          by (rule remove_from_counts_no_token)
      next
        fix t
        assume "token_address v \<noteq> admin_added" and "tokens u (token_address v) = Some t"
        then show "\<exists>t1. tokens (remove_from_counts v u) (token_address v) = Some t1 \<and>
           (\<forall>vt'. get_tcount vt' t1 =
              (if vt' = vote_type v then max 0 (get_tcount vt' t - 1) else get_tcount vt' t)) \<and>
           (\<forall>vt'. voters vt' t1 =
              (if vt' = vote_type v then remove1 (voter_id v) (voters vt' t) else voters vt' t)) \<and>
           symbol t1 = symbol t"
          by (rule remove_from_counts_token_entry)
      qed
    qed
  qed
  show ?thesis
    using first second others none author unfolding st1_def
    by - (intro conjI, assumption+)
qed



lemma one_vote_run:
  "bot (run one_vote_events) =
     \<lparr>reputation = [py_str 1 \<mapsto> \<lparr>good = 1, bad = 0, tokens = [of_ascii ''So1'' \<mapsto>
         \<lparr>t_good = 1, t_bad = 0, goodvoters = [2], badvoters = [], symbol = Some (of_ascii ''ABC'')\<rparr>]\<rparr>],
      reputation_log = [(of_ascii ''a'', vote_of ''a'' 2 Good)],
      current_votes = [(of_ascii ''a'', vote_of ''a'' 2 Good)],
      disabled_voters = {}, reputation_log_channels = [],
      token_messages = [100 \<mapsto> \<lparr>author = 1, msg_token_address = of_ascii ''So1'',
                                  token_symbol = of_ascii ''ABC''\<rparr>]\<rparr>"
  by (simp add: one_vote_events_def vote_of_def run_defs extractor_defs)

lemma raw_ids_a: "raw_ids (of_ascii ''a'') = [of_ascii ''a'']"
  by (simp add: raw_ids_def py_strip_def is_space_def of_ascii_def)

theorem repremove_twice_witness:
  "raw_ids (of_ascii ''a'') = [of_ascii ''a''] \<and>
   map_of (reputation_log (bot (run one_vote_events))) (of_ascii ''a'') =
     Some (vote_of ''a'' 2 Good) \<and>
   \<not> reversed (vote_of ''a'' 2 Good) \<and>
   snd (repremove True (of_ascii ''a'') (bot (run one_vote_events))) =
     [Save_Data, Respond (Removed
        \<lparr>success = [of_ascii ''a''], invalid = [], already_reversed = []\<rparr>)] \<and>
   repremove True (of_ascii ''a'')
       (fst (repremove True (of_ascii ''a'') (bot (run one_vote_events)))) =
     (fst (repremove True (of_ascii ''a'') (bot (run one_vote_events))),
      [Save_Data, Respond (Removed
        \<lparr>success = [], invalid = [], already_reversed = [of_ascii ''a'']\<rparr>)]) \<and>
   aggregates (bot (run one_vote_events)) (py_str 1) (of_ascii ''So1'') =
     Some (1, 0, Some (1, 0, {2}, {})) \<and>
   aggregates (fst (repremove True (of_ascii ''a'') (bot (run one_vote_events))))
     (py_str 1) (of_ascii ''So1'') = Some (0, 0, Some (0, 0, {}, {}))"
proof -
  let ?st = "bot (run one_vote_events)"
  let ?v = "vote_of ''a'' 2 Good"
  let ?t = "\<lparr>t_good = 1, t_bad = 0, goodvoters = [2], badvoters = [],
             symbol = Some (of_ascii ''ABC'')\<rparr>"
  let ?u = "\<lparr>good = 1, bad = 0, tokens = [of_ascii ''So1'' \<mapsto> ?t]\<rparr>"
  let ?st1 = "fst (repremove True (of_ascii ''a'') ?st)"
  have h2: "map_of (reputation_log ?st) (of_ascii ''a'') = Some ?v"
    by (simp add: one_vote_run)
  have h3: "\<not> reversed ?v" by (simp add: vote_of_def)
  have v: "author_id ?v = 1" "vote_type ?v = Good" "voter_id ?v = 2"
          "token_address ?v = of_ascii ''So1''"
    by (simp_all add: vote_of_def)
  have na: "token_address ?v \<noteq> admin_added"
    by (simp add: vote_of_def admin_added_def of_ascii_def)
  have u: "reputation ?st (py_str (author_id ?v)) = Some ?u"
    by (simp add: one_vote_run v)
  have t: "tokens ?u (token_address ?v) = Some ?t" by (simp add: v)
  note rt = repremove_twice [OF raw_ids_a h2 h3]
  have first: "snd (repremove True (of_ascii ''a'') ?st) =
     [Save_Data, Respond (Removed
        \<lparr>success = [of_ascii ''a''], invalid = [], already_reversed = []\<rparr>)]"
    by (rule rt [THEN conjunct1])
  have second: "repremove True (of_ascii ''a'') ?st1 =
     (?st1, [Save_Data, Respond (Removed
        \<lparr>success = [], invalid = [], already_reversed = [of_ascii ''a'']\<rparr>)])"
    by (rule rt [THEN conjunct2, THEN conjunct1])
  note au = rt [THEN conjunct2, THEN conjunct2, THEN conjunct2, THEN conjunct2]
  from au [THEN spec, THEN mp, OF u] obtain u1 where
    x: "reputation ?st1 (py_str (author_id ?v)) = Some u1 \<and>
        (\<forall>vt'. get_count vt' u1 =
              (if vt' = vote_type ?v then max 0 (get_count vt' ?u - 1) else get_count vt' ?u)) \<and>
        (\<forall>a. a \<noteq> token_address ?v \<or> token_address ?v = admin_added \<longrightarrow>
              tokens u1 a = tokens ?u a) \<and>
        (token_address ?v \<noteq> admin_added \<longrightarrow>
               (tokens ?u (token_address ?v) = None \<longrightarrow> tokens u1 (token_address ?v) = None) \<and>
               (\<forall>t. tokens ?u (token_address ?v) = Some t \<longrightarrow>
                  (\<exists>t1. tokens u1 (token_address ?v) = Some t1 \<and>
                     (\<forall>vt'. get_tcount vt' t1 =
                        (if vt' = vote_type ?v then max 0 (get_tcount vt' t - 1)
                         else get_tcount vt' t)) \<and>
                     (\<forall>vt'. voters vt' t1 =
                        (if vt' = vote_type ?v then remove1 (voter_id ?v) (voters vt' t)
                         else voters vt' t)) \<and>
                     symbol t1 = symbol t)))" ..
  note r = x [THEN conjunct1]
  note c = x [THEN conjunct2, THEN conjunct1]
  note tk = x [THEN conjunct2, THEN conjunct2, THEN conjunct2, THEN mp, OF na, THEN conjunct2,
               THEN spec, THEN mp, OF t]
  from tk obtain t1 where
    y: "tokens u1 (token_address ?v) = Some t1 \<and>
        (\<forall>vt'. get_tcount vt' t1 =
               (if vt' = vote_type ?v then max 0 (get_tcount vt' ?t - 1) else get_tcount vt' ?t)) \<and>
        (\<forall>vt'. voters vt' t1 =
               (if vt' = vote_type ?v then remove1 (voter_id ?v) (voters vt' ?t)
                else voters vt' ?t)) \<and>
        symbol t1 = symbol ?t" ..
  note t1 = y [THEN conjunct1]
  note tc = y [THEN conjunct2, THEN conjunct1]
  note tv = y [THEN conjunct2, THEN conjunct2, THEN conjunct1]
  have g: "good u1 = 0" "bad u1 = 0"
    using c [rule_format, of Good] c [rule_format, of Bad] by (simp_all add: v)
  have tg: "t_good t1 = 0" "t_bad t1 = 0"
    using tc [rule_format, of Good] tc [rule_format, of Bad] by (simp_all add: v)
  have vs: "goodvoters t1 = []" "badvoters t1 = []"
    using tv [rule_format, of Good] tv [rule_format, of Bad] by (simp_all add: v)
  have after: "aggregates ?st1 (py_str 1) (of_ascii ''So1'') = Some (0, 0, Some (0, 0, {}, {}))"
    using r t1 g tg vs by (simp add: aggregates_def v)
  have before: "aggregates ?st (py_str 1) (of_ascii ''So1'') = Some (1, 0, Some (1, 0, {2}, {}))"
    using u by (simp add: aggregates_def v)
  show ?thesis
    using raw_ids_a h2 h3 first second before after by - (intro conjI, assumption+)
qed

text \<open>
  C10: an active record whose author has no entry in \<^verbatim>\<open>bot.reputation\<close> is reported as
  removed, set to reversed in the log and deleted from the current votes, while the
  aggregates stay exactly as they were.
\<close>

theorem repremove_orphan_vote:
  assumes "raw_ids vote_ids = [vid]" and "map_of (reputation_log st) vid = Some v"
    and "\<not> reversed v" and "reputation st (py_str (author_id v)) = None"
  shows "snd (repremove True vote_ids st) =
           [Save_Data, Respond (Removed \<lparr>success = [vid], invalid = [], already_reversed = []\<rparr>)] \<and>
         reputation (fst (repremove True vote_ids st)) = reputation st \<and>
         map_of (reputation_log (fst (repremove True vote_ids st))) vid =
           Some (v\<lparr>reversed := True\<rparr>) \<and>
         vid \<notin> fst ` set (current_votes (fst (repremove True vote_ids st)))"
  using assms(4)
  by (simp add: repremove_single [OF assms(1)] repremove_one_active [OF assms(2,3)]
        update_conv' delete_notin_dom)

theorem repremove_orphan_vote_witness:
  "raw_ids (of_ascii ''a'') = [of_ascii ''a''] \<and>
   map_of (reputation_log orphan_state) (of_ascii ''a'') = Some (vote_of ''a'' 2 Good) \<and>
   \<not> reversed (vote_of ''a'' 2 Good) \<and>
   reputation orphan_state (py_str (author_id (vote_of ''a'' 2 Good))) = None \<and>
   snd (repremove True (of_ascii ''a'') orphan_state) =
     [Save_Data, Respond (Removed
        \<lparr>success = [of_ascii ''a''], invalid = [], already_reversed = []\<rparr>)] \<and>
   reputation (fst (repremove True (of_ascii ''a'') orphan_state)) = reputation orphan_state \<and>
   map_of (reputation_log (fst (repremove True (of_ascii ''a'') orphan_state))) (of_ascii ''a'') =
     Some ((vote_of ''a'' 2 Good)\<lparr>reversed := True\<rparr>) \<and>
   of_ascii ''a'' \<notin> fst ` set (current_votes (fst (repremove True (of_ascii ''a'') orphan_state)))"
proof -
  have h2: "map_of (reputation_log orphan_state) (of_ascii ''a'') = Some (vote_of ''a'' 2 Good)"
    by (simp add: orphan_state_def)
  have h3: "\<not> reversed (vote_of ''a'' 2 Good)" by (simp add: vote_of_def)
  have h4: "reputation orphan_state (py_str (author_id (vote_of ''a'' 2 Good))) = None"
    by (simp add: orphan_state_def init_state_def)
  show ?thesis
    using repremove_orphan_vote [OF raw_ids_a h2 h3 h4] raw_ids_a h2 h3 h4 by blast
qed

section \<open>Re-applying a stance\<close>

lemma insert_set_remove1: "x \<in> set xs \<Longrightarrow> insert x (set (remove1 x xs)) = set xs"
  by (induction xs) auto

lemma same_stance_fields:
  assumes "\<not> user_bot ev" and "user_id ev \<notin> disabled_voters st"
    and "token_messages st (ev_message_id ev) = Some info"
    and "user_id ev \<noteq> author info"
    and "emoji ev = green_circle \<and> nv = Good \<or> emoji ev = red_circle \<and> nv = Bad"
    and "reputation st (py_str (author info)) = Some u"
    and "tokens u (msg_token_address info) = Some t"
    and "user_id ev \<in> set (voters nv t)"
    and "\<forall>vt. vt \<noteq> nv \<longrightarrow> user_id ev \<notin> set (voters vt t)"
  shows "\<exists>u' t'.
           reputation (fst (on_reaction_add e ev st)) (py_str (author info)) = Some u' \<and>
           good u' = good u \<and> bad u' = bad u \<and>
           tokens u' (msg_token_address info) = Some t' \<and>
           t_good t' = t_good t \<and> t_bad t' = t_bad t \<and>
           set (goodvoters t') = set (goodvoters t) \<and>
           set (badvoters t') = set (badvoters t) \<and>
           (\<forall>a. a \<noteq> msg_token_address info \<longrightarrow> tokens u' a = tokens u a) \<and>
           (\<forall>k. k \<noteq> py_str (author info) \<longrightarrow>
                reputation (fst (on_reaction_add e ev st)) k = reputation st k)"
proof (cases nv)
  case Good
  then have em: "emoji ev = green_circle" using assms(5) by auto
  have nb: "user_id ev \<notin> set (badvoters t)" using assms(9) Good by (auto dest: spec [of _ Bad])
  have g: "user_id ev \<in> set (goodvoters t)" using assms(8) Good by simp
  show ?thesis
    using assms(1-4,6,7) em nb g
    by (simp add: on_reaction_add_def Let_def init_token_data_def remove_existing_def
          add_new_vote_def insert_set_remove1)
next
  case Bad
  then have em: "emoji ev = red_circle" "emoji ev \<noteq> green_circle"
    using assms(5) glyphs_distinct by auto
  have ng: "user_id ev \<notin> set (goodvoters t)" using assms(9) Bad by (auto dest: spec [of _ Good])
  have b: "user_id ev \<in> set (badvoters t)" using assms(8) Bad by simp
  show ?thesis
    using assms(1-4,6,7) em ng b
    by (simp add: on_reaction_add_def Let_def init_token_data_def remove_existing_def
          add_new_vote_def insert_set_remove1)
qed

section \<open>Snapshot and restore\<close>

text \<open>
  C9: \<^verbatim>\<open>load_data\<close> after \<^verbatim>\<open>save_data\<close> gives back the vote log, the current votes and
  the disabled voters as they were, and the same users with the same counters and the
  same tokens, where a token entry without a symbol gets the first six characters of its
  address followed by \<^verbatim>\<open>...\<close>, or \<^verbatim>\<open>unknown\<close> under the unknown sentinel, and every
  other entry is unchanged; when no entry lacks its symbol the aggregates are identical.
\<close>

theorem snapshot_restore_roundtrip:
  "reputation_log (load_data (save_data st) st0) = reputation_log st \<and>
   current_votes (load_data (save_data st) st0) = current_votes st \<and>
   disabled_voters (load_data (save_data st) st0) = disabled_voters st \<and>
   (\<forall>k. reputation st k = None \<longrightarrow> reputation (load_data (save_data st) st0) k = None) \<and>
   (\<forall>k u. reputation st k = Some u \<longrightarrow>
      (\<exists>u'. reputation (load_data (save_data st) st0) k = Some u' \<and>
            good u' = good u \<and> bad u' = bad u \<and>
            (\<forall>a. tokens u a = None \<longrightarrow> tokens u' a = None) \<and>
            (\<forall>a t. tokens u a = Some t \<longrightarrow>
               tokens u' a =
                 Some (if symbol t = None
                       then t\<lparr>symbol := Some (if a = unknown then unknown
                                               else take 6 a @ of_ascii ''...'')\<rparr>
                       else t)))) \<and>
   ((\<forall>k u a t. reputation st k = Some u \<and> tokens u a = Some t \<longrightarrow> symbol t \<noteq> None) \<longrightarrow>
      reputation (load_data (save_data st) st0) = reputation st)"
proof -
  have rep: "reputation (load_data (save_data st) st0) = backfill (reputation st)"
    and lg: "reputation_log (load_data (save_data st) st0) = reputation_log st"
    and cv: "current_votes (load_data (save_data st) st0) = current_votes st"
    and dv: "disabled_voters (load_data (save_data st) st0) = disabled_voters st"
    by (simp_all add: load_data_def save_data_def Let_def)
  have none: "\<forall>k. reputation st k = None \<longrightarrow> backfill (reputation st) k = None"
    by (simp add: backfill_def)
  have some: "\<forall>k u. reputation st k = Some u \<longrightarrow>
      (\<exists>u'. backfill (reputation st) k = Some u' \<and>
            good u' = good u \<and> bad u' = bad u \<and>
            (\<forall>a. tokens u a = None \<longrightarrow> tokens u' a = None) \<and>
            (\<forall>a t. tokens u a = Some t \<longrightarrow>
               tokens u' a =
                 Some (if symbol t = None
                       then t\<lparr>symbol := Some (if a = unknown then unknown
                                               else take 6 a @ of_ascii ''...'')\<rparr>
                       else t)))"
    by (simp add: backfill_def backfill_user_def backfill_token_def default_symbol_def)
  have same: "(\<forall>k u a t. reputation st k = Some u \<and> tokens u a = Some t \<longrightarrow> symbol t \<noteq> None) \<longrightarrow>
      backfill (reputation st) = reputation st"
  proof
    assume all: "\<forall>k u a t. reputation st k = Some u \<and> tokens u a = Some t \<longrightarrow> symbol t \<noteq> None"
    show "backfill (reputation st) = reputation st"
    proof
      fix k
      show "backfill (reputation st) k = reputation st k"
      proof (cases "reputation st k")
        case None
        then show ?thesis by (simp add: backfill_def)
      next
        case (Some u)
        have "(\<lambda>a. map_option (backfill_token a) (tokens u a)) = tokens u"
        proof
          fix a
          show "map_option (backfill_token a) (tokens u a) = tokens u a"
            using all Some by (cases "tokens u a") (auto simp: backfill_token_def)
        qed
        then have "backfill_user u = u" by (simp add: backfill_user_def)
        then show ?thesis using Some by (simp add: backfill_def)
      qed
    qed
  qed
  show ?thesis
    unfolding rep lg cv dv using none some same by blast
qed

theorem snapshot_restore_roundtrip_witness:
  "(\<exists>u'. reputation (load_data (save_data legacy_state) init_state) (py_str 1) = Some u' \<and>
         good u' = 1 \<and> bad u' = 0 \<and>
         tokens u' (of_ascii ''So1abcdefgh'') =
           Some \<lparr>t_good = 1, t_bad = 0, goodvoters = [2], badvoters = [],
                 symbol = Some (of_ascii ''So1abc...'')\<rparr> \<and>
         tokens u' unknown =
           Some \<lparr>t_good = 0, t_bad = 1, goodvoters = [], badvoters = [3],
                 symbol = Some unknown\<rparr>) \<and>
   reputation (load_data (save_data (bot (run one_vote_events))) init_state) =
     reputation (bot (run one_vote_events)) \<and>
   reputation_log (load_data (save_data (bot (run one_vote_events))) init_state) =
     reputation_log (bot (run one_vote_events))"
proof -
  let ?t1 = "\<lparr>t_good = 1, t_bad = 0, goodvoters = [2], badvoters = [], symbol = None\<rparr>"
  let ?t2 = "\<lparr>t_good = 0, t_bad = 1, goodvoters = [], badvoters = [3], symbol = None\<rparr>"
  let ?u = "\<lparr>good = 1, bad = 0, tokens = [of_ascii ''So1abcdefgh'' \<mapsto> ?t1, unknown \<mapsto> ?t2]\<rparr>"
  have ne: "of_ascii ''So1abcdefgh'' \<noteq> unknown" by (simp add: unknown_def of_ascii_def)
  have u: "reputation legacy_state (py_str 1) = Some ?u"
    by (simp add: legacy_state_def)
  have t1: "tokens ?u (of_ascii ''So1abcdefgh'') = Some ?t1" using ne by simp
  have t2: "tokens ?u unknown = Some ?t2" by simp
  note rt = snapshot_restore_roundtrip [of legacy_state init_state]
  from rt u obtain u' where
    r: "reputation (load_data (save_data legacy_state) init_state) (py_str 1) = Some u'"
    and c: "good u' = good ?u" "bad u' = bad ?u"
    and tk: "\<forall>a t. tokens ?u a = Some t \<longrightarrow>
               tokens u' a =
                 Some (if symbol t = None
                       then t\<lparr>symbol := Some (if a = unknown then unknown
                                               else take 6 a @ of_ascii ''...'')\<rparr>
                       else t)"
    by blast
  have k1: "tokens u' (of_ascii ''So1abcdefgh'') =
           Some \<lparr>t_good = 1, t_bad = 0, goodvoters = [2], badvoters = [],
                 symbol = Some (of_ascii ''So1abc...'')\<rparr>"
    using tk [rule_format, OF t1] ne by (simp add: of_ascii_def)
  have k2: "tokens u' unknown =
           Some \<lparr>t_good = 0, t_bad = 1, goodvoters = [], badvoters = [3],
                 symbol = Some unknown\<rparr>"
    using tk [rule_format, OF t2] by simp
  have all: "\<forall>k u a t. reputation (bot (run one_vote_events)) k = Some u \<and> tokens u a = Some t
               \<longrightarrow> symbol t \<noteq> None"
    by (auto simp: one_vote_run split: if_splits)
  note rt2 = snapshot_restore_roundtrip [of "bot (run one_vote_events)" init_state]
  have same: "reputation (load_data (save_data (bot (run one_vote_events))) init_state) =
     reputation (bot (run one_vote_events))"
    using rt2 all by blast
  have lg: "reputation_log (load_data (save_data (bot (run one_vote_events))) init_state) =
     reputation_log (bot (run one_vote_events))"
    using rt2 by blast
  show ?thesis using r c k1 k2 same lg by simp
qed

section \<open>Mutual exclusion of the voter lists\<close>

lemma reputation_ok_update:
  assumes "reputation_ok r" and "\<And>a t. tokens u a = Some t \<Longrightarrow> voters_ok t"
  shows "reputation_ok (r(k \<mapsto> u))"
  using assms unfolding reputation_ok_def by (auto split: if_splits)

lemma reputation_ok_lookup:
  "reputation_ok r \<Longrightarrow> r k = Some u \<Longrightarrow> tokens u a = Some t \<Longrightarrow> voters_ok t"
  unfolding reputation_ok_def by blast

lemma tokens_remove_existing:
  "tokens (fst (remove_existing voter acc vt)) = tokens (fst acc)"
  by (cases acc) (simp add: remove_existing_def)

lemma tokens_add_new_vote: "tokens (fst (add_new_vote voter nv ut)) = tokens (fst ut)"
  by (cases ut) (simp add: add_new_vote_def)

lemma voters_ok_remove1:
  "voters_ok t \<Longrightarrow> voters_ok (set_voters vt (remove1 x (voters vt t)) t)"
  by (cases vt) (auto simp: voters_ok_def dest: notin_set_remove1)

lemma voters_ok_set_tcount [simp]: "voters_ok (set_tcount vt n t) = voters_ok t"
  by (cases vt) (simp_all add: voters_ok_def)

lemma voters_ok_symbol [simp]: "voters_ok (t\<lparr>symbol := s\<rparr>) = voters_ok t"
  by (simp add: voters_ok_def)

lemma voters_ok_vote:
  assumes "voters_ok t"
  shows "voters_ok (snd (add_new_vote voter nv
            (fst (remove_existing voter (remove_existing voter (u, t, ex) Good) Bad),
             fst (snd (remove_existing voter (remove_existing voter (u, t, ex) Good) Bad)))))"
  using assms
  by (cases nv)
     (auto simp: voters_ok_def remove_existing_def add_new_vote_def
           dest: notin_set_remove1)

lemma voters_ok_init:
  assumes "\<And>t. tokens u a = Some t \<Longrightarrow> voters_ok t"
  shows "voters_ok (init_token_data a tsym u)"
  using assms by (auto simp: init_token_data_def Let_def voters_ok_def split: option.splits)


lemma vote_block_ok:
  assumes r: "reputation_ok r" and u0: "\<And>a t. tokens u0 a = Some t \<Longrightarrow> voters_ok t"
  shows "reputation_ok (r(k \<mapsto>
      (fst (add_new_vote voter nv
         (fst (remove_existing voter
                 (remove_existing voter (u0, init_token_data addr tsym u0, False) Good) Bad),
          fst (snd (remove_existing voter
                 (remove_existing voter (u0, init_token_data addr tsym u0, False) Good) Bad)))))
      \<lparr>tokens :=
         (tokens (fst (add_new_vote voter nv
         (fst (remove_existing voter
                 (remove_existing voter (u0, init_token_data addr tsym u0, False) Good) Bad),
          fst (snd (remove_existing voter
                 (remove_existing voter (u0, init_token_data addr tsym u0, False) Good) Bad))))))
         (addr \<mapsto> snd (add_new_vote voter nv
         (fst (remove_existing voter
                 (remove_existing voter (u0, init_token_data addr tsym u0, False) Good) Bad),
          fst (snd (remove_existing voter
                 (remove_existing voter (u0, init_token_data addr tsym u0, False) Good) Bad)))))\<rparr>))"
    (is "reputation_ok (r(k \<mapsto> (fst ?added)\<lparr>tokens := (tokens (fst ?added))(addr \<mapsto> snd ?added)\<rparr>))")
proof (rule reputation_ok_update [OF r])
  fix a t
  assume a: "tokens ((fst ?added)\<lparr>tokens := (tokens (fst ?added))(addr \<mapsto> snd ?added)\<rparr>) a = Some t"
  have t0: "voters_ok (init_token_data addr tsym u0)" by (rule voters_ok_init) (rule u0)
  have new: "voters_ok (snd ?added)" by (rule voters_ok_vote [OF t0])
  have tk: "tokens (fst ?added) = tokens u0"
    by (simp add: tokens_add_new_vote tokens_remove_existing)
  show "voters_ok t"
  proof (cases "a = addr")
    case True
    then have "t = snd ?added" using a by simp
    then show ?thesis using new by simp
  next
    case False
    then have "tokens u0 a = Some t" using a tk by simp
    then show ?thesis by (rule u0)
  qed
qed

lemma on_reaction_add_ok:
  assumes "reputation_ok (reputation st)"
  shows "reputation_ok (reputation (fst (on_reaction_add e ev st)))"
  using assms
  by (auto simp: on_reaction_add_def Let_def split: option.splits
           intro!: vote_block_ok dest: reputation_ok_lookup)


lemma voters_ok_set_voters_tcount:
  "voters_ok t \<Longrightarrow> voters_ok (set_voters vt (remove1 x (voters vt t)) (set_tcount vt' n t))"
  by (cases vt; cases vt') (auto simp: voters_ok_def dest: notin_set_remove1)

lemma removal_block_ok:
  assumes r: "reputation_ok r" and u: "r k = Some u" and t: "tokens u addr = Some t"
  shows "reputation_ok (r(k \<mapsto> set_count vt m
           (u\<lparr>tokens := (tokens u)(addr \<mapsto>
               set_tcount vt n (set_voters vt (remove1 voter (voters vt t)) t))\<rparr>)))"
proof (rule reputation_ok_update [OF r])
  fix a t'
  assume a: "tokens (set_count vt m
           (u\<lparr>tokens := (tokens u)(addr \<mapsto>
               set_tcount vt n (set_voters vt (remove1 voter (voters vt t)) t))\<rparr>)) a = Some t'"
  have ok: "voters_ok t" by (rule reputation_ok_lookup [OF r u t])
  show "voters_ok t'"
  proof (cases "a = addr")
    case True
    then have "t' = set_tcount vt n (set_voters vt (remove1 voter (voters vt t)) t)"
      using a by simp
    then show ?thesis using ok by (simp add: voters_ok_remove1)
  next
    case False
    then have "tokens u a = Some t'" using a by simp
    then show ?thesis by (rule reputation_ok_lookup [OF r u])
  qed
qed

lemma on_raw_reaction_remove_ok:
  assumes "reputation_ok (reputation st)"
  shows "reputation_ok (reputation (fst (on_raw_reaction_remove e ev st)))"
  using assms
  by (auto simp: on_raw_reaction_remove_def Let_def
           simp del: set_count.simps set_tcount.simps set_voters.simps voters.simps
                     get_count.simps get_tcount.simps
           split: option.splits intro!: removal_block_ok)

lemma remove_from_counts_ok:
  assumes u: "\<And>a t. tokens u a = Some t \<Longrightarrow> voters_ok t"
    and a: "tokens (remove_from_counts v u) a = Some t"
  shows "voters_ok t"
proof (cases "token_address v \<noteq> admin_added \<and> a = token_address v")
  case True
  show ?thesis
  proof (cases "tokens u (token_address v)")
    case None
    then show ?thesis using a True by (simp add: remove_from_counts_def Let_def)
  next
    case (Some t0)
    have ok: "voters_ok t0" by (rule u [OF Some])
    have "t = set_tcount (vote_type v) (max 0 (get_tcount (vote_type v) t0 - 1)) t0 \<or>
          t = set_voters (vote_type v) (remove1 (voter_id v) (voters (vote_type v) t0))
                (set_tcount (vote_type v) (max 0 (get_tcount (vote_type v) t0 - 1)) t0)"
      using a True Some by (simp add: remove_from_counts_def Let_def split: if_splits)
    then show ?thesis using ok by (auto simp: voters_ok_set_voters_tcount)
  qed
next
  case False
  then have "tokens u a = Some t"
    using a by (auto simp: remove_from_counts_def Let_def split: if_splits option.splits)
  then show ?thesis by (rule u)
qed

lemma repremove_one_ok:
  assumes "reputation_ok (reputation (fst acc))"
  shows "reputation_ok (reputation (fst (repremove_one acc vid)))"
proof (cases acc)
  case (Pair st res)
  then have r: "reputation_ok (reputation st)" using assms by simp
  have blk: "\<And>(v::vote) u. reputation st (py_str (author_id v)) = Some u \<Longrightarrow>
      reputation_ok ((reputation st)(py_str (author_id v) \<mapsto> remove_from_counts v u))"
  proof -
    fix v :: vote and u
    assume u: "reputation st (py_str (author_id v)) = Some u"
    show "reputation_ok ((reputation st)(py_str (author_id v) \<mapsto> remove_from_counts v u))"
    proof (rule reputation_ok_update [OF r])
      fix a t
      assume "tokens (remove_from_counts v u) a = Some t"
      then show "voters_ok t"
        by (rule remove_from_counts_ok [rotated]) (rule reputation_ok_lookup [OF r u])
    qed
  qed
  show ?thesis
    using r blk by (simp add: Pair repremove_one_def Let_def split: option.splits)
qed

lemma repremove_fold_ok:
  "reputation_ok (reputation (fst acc)) \<Longrightarrow>
   reputation_ok (reputation (fst (foldl repremove_one acc ids)))"
  by (induction ids arbitrary: acc) (simp_all add: repremove_one_ok)

lemma repremove_ok:
  "reputation_ok (reputation st) \<Longrightarrow> reputation_ok (reputation (fst (repremove a ids st)))"
  by (simp add: repremove_def Let_def repremove_fold_ok)


lemma repadd_one_ok:
  assumes r: "reputation_ok (reputation st)"
  shows "reputation_ok (reputation (repadd_one voter auth vt st gen))"
proof (cases "reputation st (py_str auth)")
  case None
  then show ?thesis using r by (simp add: repadd_one_def Let_def)
next
  case (Some u)
  have "reputation_ok ((reputation st)(py_str auth \<mapsto> set_count vt (get_count vt u + 1) u))"
  proof (rule reputation_ok_update [OF r])
    fix a t
    assume "tokens (set_count vt (get_count vt u + 1) u) a = Some t"
    then have "tokens u a = Some t" by simp
    then show "voters_ok t" by (rule reputation_ok_lookup [OF r Some])
  qed
  then show ?thesis using Some by (simp add: repadd_one_def Let_def)
qed

lemma repadd_fold_ok:
  "reputation_ok (reputation st) \<Longrightarrow>
   reputation_ok (reputation (foldl (repadd_one voter auth vt) st gens))"
  by (induction gens arbitrary: st) (simp_all add: repadd_one_ok)

lemma repadd_ok:
  assumes r: "reputation_ok (reputation st)"
  shows "reputation_ok (reputation (fst (repadd e a gid admin_id usr amount vt gen st)))"
proof -
  have "reputation_ok ((reputation st)(py_str usr \<mapsto> \<lparr>good = 0, bad = 0, tokens = Map.empty\<rparr>))"
    by (rule reputation_ok_update [OF r]) simp
  then show ?thesis
    using r by (simp add: repadd_def Let_def repadd_fold_ok)
qed

lemma backfill_ok:
  assumes "reputation_ok r"
  shows "reputation_ok (backfill r)"
  unfolding reputation_ok_def
proof (intro allI impI)
  fix k u a t
  assume k: "backfill r k = Some u" and a: "tokens u a = Some t"
  from k obtain u0 where u0: "r k = Some u0" and u: "u = backfill_user u0"
    by (auto simp: backfill_def)
  from a u obtain t0 where t0: "tokens u0 a = Some t0" and t: "t = backfill_token a t0"
    by (auto simp: backfill_user_def)
  have "voters_ok t0" by (rule reputation_ok_lookup [OF assms u0 t0])
  then show "voters_ok t" by (simp add: t backfill_token_def)
qed

lemma load_data_ok:
  assumes "reputation_ok (reputation st)"
    and "case reputation_json fs of None \<Rightarrow> True | Some r \<Rightarrow> reputation_ok r"
  shows "reputation_ok (reputation (load_data fs st))"
  using assms by (auto simp: load_data_def Let_def backfill_ok split: option.splits)

lemma commit_ok:
  assumes "system_ok sys" and "reputation_ok (reputation (fst r))"
  shows "system_ok (commit sys r)"
  using assms by (simp add: system_ok_def commit_def save_data_def)

lemma step_ok:
  assumes "system_ok sys"
  shows "system_ok (step sys ev)"
proof -
  have b: "reputation_ok (reputation (bot sys))" using assms by (simp add: system_ok_def)
  show ?thesis
  proof (cases ev)
    case (On_Message up mid member addr content)
    then show ?thesis using assms by (simp add: system_ok_def on_message_def Let_def)
  next
    case (On_Reaction_Add e rev)
    then show ?thesis using assms b by (simp add: commit_ok on_reaction_add_ok)
  next
    case (On_Raw_Reaction_Remove e rev)
    then show ?thesis using assms b by (simp add: commit_ok on_raw_reaction_remove_ok)
  next
    case (Rep_Add e a gid admin_id usr amount vt gen)
    then show ?thesis using assms b by (simp add: commit_ok repadd_ok)
  next
    case (Rep_Remove a ids)
    then show ?thesis using assms b by (simp add: commit_ok repremove_ok)
  next
    case (Rep_Disable a usr)
    then show ?thesis using assms b by (simp add: commit_ok repdisable_def)
  next
    case (Rep_Logs a gid cid)
    then show ?thesis using assms b by (simp add: commit_ok replogs_def)
  next
    case On_Ready
    then show ?thesis using assms by (simp add: system_ok_def load_data_ok)
  next
    case Restart
    have "reputation_ok (reputation init_state)"
      by (simp add: reputation_ok_def init_state_def)
    then show ?thesis using Restart assms by (simp add: system_ok_def load_data_ok)
  qed
qed

lemma foldl_step_ok: "system_ok sys \<Longrightarrow> system_ok (foldl step sys evs)"
  by (induction evs arbitrary: sys) (simp_all add: step_ok)

lemma run_ok: "system_ok (run evs)"
  unfolding run_def
  by (rule foldl_step_ok) (simp add: system_ok_def init_system_def init_state_def no_files_def reputation_ok_def)

lemma reputation_ok_exclusion: "reputation_ok (reputation st) \<Longrightarrow> mutual_exclusion st"
  unfolding reputation_ok_def mutual_exclusion_def voters_ok_def by blast

text \<open>
  C4: in every state the bot reaches from its initial state by any sequence of events
  (tracked messages, reaction additions and removals, the admin commands, restarts), no
  voter is in both the good and the bad voter list of any token of any user; and the same
  holds after a further vote application, reaction removal or admin removal.
\<close>

theorem mutual_exclusion_reachable:
  "mutual_exclusion (bot (run evs)) \<and>
   mutual_exclusion (fst (on_reaction_add e ev (bot (run evs)))) \<and>
   mutual_exclusion (fst (on_raw_reaction_remove e ev (bot (run evs)))) \<and>
   mutual_exclusion (fst (repremove is_admin vote_ids (bot (run evs))))"
proof -
  have b: "reputation_ok (reputation (bot (run evs)))"
    using run_ok [of evs] by (simp add: system_ok_def)
  show ?thesis
    using b by (simp add: reputation_ok_exclusion on_reaction_add_ok on_raw_reaction_remove_ok
                  repremove_ok)
qed

lemma switch_run_reputation:
  "reputation (bot (run switch_events)) (py_str 1) =
     Some \<lparr>good = 0, bad = 1, tokens = [of_ascii ''So1'' \<mapsto>
         \<lparr>t_good = 0, t_bad = 1, goodvoters = [], badvoters = [2], symbol = Some (of_ascii ''ABC'')\<rparr>]\<rparr>"
  by (simp add: switch_events_def run_defs extractor_defs)

theorem mutual_exclusion_reachable_witness:
  "(\<exists>u t. reputation (bot (run switch_events)) (py_str 1) = Some u \<and>
          tokens u (of_ascii ''So1'') = Some t \<and>
          2 \<in> set (badvoters t) \<and> 2 \<notin> set (goodvoters t))"
proof -
  let ?t = "\<lparr>t_good = 0, t_bad = 1, goodvoters = [], badvoters = [2],
             symbol = Some (of_ascii ''ABC'')\<rparr>"
  let ?u = "\<lparr>good = 0, bad = 1, tokens = [of_ascii ''So1'' \<mapsto> ?t]\<rparr>"
  have u: "reputation (bot (run switch_events)) (py_str 1) = Some ?u"
    by (rule switch_run_reputation)
  have t: "tokens ?u (of_ascii ''So1'') = Some ?t" by simp
  have b: "2 \<in> set (badvoters ?t)" by simp
  have "mutual_exclusion (bot (run switch_events))"
    using mutual_exclusion_reachable [of switch_events] by blast
  then have "\<not> (2 \<in> set (goodvoters ?t) \<and> 2 \<in> set (badvoters ?t))"
    using u t unfolding mutual_exclusion_def by blast
  then have "2 \<notin> set (goodvoters ?t)" using b by blast
  then show ?thesis using u t b by blast
qed

section \<open>Re-applying a stance: the aggregate view\<close>

lemma same_stance_aggregates:
  assumes "\<not> user_bot ev" and "user_id ev \<notin> disabled_voters st"
    and "token_messages st (ev_message_id ev) = Some info"
    and "user_id ev \<noteq> author info"
    and "emoji ev = green_circle \<and> nv = Good \<or> emoji ev = red_circle \<and> nv = Bad"
    and "reputation st (py_str (author info)) = Some u"
    and "tokens u (msg_token_address info) = Some t"
    and "user_id ev \<in> set (voters nv t)"
    and "\<forall>vt. vt \<noteq> nv \<longrightarrow> user_id ev \<notin> set (voters vt t)"
  shows "aggregates (fst (on_reaction_add e ev st)) = aggregates st"
proof -
  from same_stance_fields [OF assms, of e]
  obtain u' t' where
    r: "reputation (fst (on_reaction_add e ev st)) (py_str (author info)) = Some u'"
    and c: "good u' = good u" "bad u' = bad u"
    and tk: "tokens u' (msg_token_address info) = Some t'"
    and tc: "t_good t' = t_good t" "t_bad t' = t_bad t"
            "set (goodvoters t') = set (goodvoters t)" "set (badvoters t') = set (badvoters t)"
    and ot: "\<forall>a. a \<noteq> msg_token_address info \<longrightarrow> tokens u' a = tokens u a"
    and ou: "\<forall>k. k \<noteq> py_str (author info) \<longrightarrow>
                reputation (fst (on_reaction_add e ev st)) k = reputation st k"
    by blast
  show ?thesis
  proof (intro ext)
    fix k a
    show "aggregates (fst (on_reaction_add e ev st)) k a = aggregates st k a"
    proof (cases "k = py_str (author info)")
      case False
      then show ?thesis using ou by (simp add: aggregates_def)
    next
      case True
      show ?thesis
      proof (cases "a = msg_token_address info")
        case True
        then show ?thesis
          using \<open>k = py_str (author info)\<close> r c tk tc assms(6,7) by (simp add: aggregates_def)
      next
        case False
        then show ?thesis
          using \<open>k = py_str (author info)\<close> r c ot assms(6) by (simp add: aggregates_def)
      qed
    qed
  qed
qed

lemma voters_remove_existing:
  "voters vt' (fst (snd (remove_existing voter acc vt))) =
     (if vt' = vt \<and> voter \<in> set (voters vt (fst (snd acc)))
      then remove1 voter (voters vt (fst (snd acc))) else voters vt' (fst (snd acc)))"
  by (cases acc; cases vt; cases vt') (simp_all add: remove_existing_def)

lemma voters_add_new_vote:
  "voters vt' (snd (add_new_vote voter nv ut)) =
     (if vt' = nv then voters nv (snd ut) @ [voter] else voters vt' (snd ut))"
  by (cases ut; cases nv; cases vt') (simp_all add: add_new_vote_def)

lemma voters_ok_distinct: "voters_ok t \<Longrightarrow> distinct (voters vt t)"
  by (cases vt) (simp_all add: voters_ok_def)

lemma voter_removed:
  "distinct xs \<Longrightarrow> voter \<notin> set (if voter \<in> set xs then remove1 voter xs else xs)"
  by (simp add: set_remove1_eq)

lemma stance_after_vote:
  assumes "voters_ok t"
  shows "voter \<in> set (voters nv (snd (add_new_vote voter nv
            (fst (remove_existing voter (remove_existing voter (u, t, ex) Good) Bad),
             fst (snd (remove_existing voter (remove_existing voter (u, t, ex) Good) Bad)))))) \<and>
         (\<forall>vt. vt \<noteq> nv \<longrightarrow>
            voter \<notin> set (voters vt (snd (add_new_vote voter nv
            (fst (remove_existing voter (remove_existing voter (u, t, ex) Good) Bad),
             fst (snd (remove_existing voter (remove_existing voter (u, t, ex) Good) Bad)))))))"
proof (intro conjI allI impI)
  show "voter \<in> set (voters nv (snd (add_new_vote voter nv
            (fst (remove_existing voter (remove_existing voter (u, t, ex) Good) Bad),
             fst (snd (remove_existing voter (remove_existing voter (u, t, ex) Good) Bad))))))"
    by (simp add: voters_add_new_vote)
next
  fix vt :: vote_kind
  assume ne: "vt \<noteq> nv"
  have g: "voter \<notin> set (if voter \<in> set (voters vt t) then remove1 voter (voters vt t)
                          else voters vt t)"
    by (rule voter_removed) (rule voters_ok_distinct [OF assms])
  have eq: "voters vt (snd (add_new_vote voter nv
            (fst (remove_existing voter (remove_existing voter (u, t, ex) Good) Bad),
             fst (snd (remove_existing voter (remove_existing voter (u, t, ex) Good) Bad))))) =
        (if voter \<in> set (voters vt t) then remove1 voter (voters vt t) else voters vt t)"
    using ne by (cases vt) (simp_all add: voters_add_new_vote voters_remove_existing
                              del: voters.simps)
  show "voter \<notin> set (voters vt (snd (add_new_vote voter nv
            (fst (remove_existing voter (remove_existing voter (u, t, ex) Good) Bad),
             fst (snd (remove_existing voter (remove_existing voter (u, t, ex) Good) Bad))))))"
    unfolding eq by (rule g)
qed

lemma on_reaction_add_keeps_context:
  "disabled_voters (fst (on_reaction_add e ev st)) = disabled_voters st \<and>
   token_messages (fst (on_reaction_add e ev st)) = token_messages st"
  by (simp add: on_reaction_add_def Let_def split: option.splits)

lemma on_reaction_add_entry:
  assumes "\<not> user_bot ev" and "user_id ev \<notin> disabled_voters st"
    and "token_messages st (ev_message_id ev) = Some info"
    and "user_id ev \<noteq> author info"
    and "emoji ev = green_circle \<or> emoji ev = red_circle"
  shows "let u0 = (case reputation st (py_str (author info)) of
                     None \<Rightarrow> \<lparr>good = 0, bad = 0, tokens = Map.empty\<rparr> | Some u \<Rightarrow> u);
             t0 = init_token_data (msg_token_address info) (token_symbol info) u0;
             r = remove_existing (user_id ev) (remove_existing (user_id ev) (u0, t0, False) Good) Bad;
             added = add_new_vote (user_id ev) (if emoji ev = green_circle then Good else Bad)
                       (fst r, fst (snd r))
         in reputation (fst (on_reaction_add e ev st)) (py_str (author info)) =
              Some ((fst added)\<lparr>tokens := (tokens (fst added))(msg_token_address info \<mapsto> snd added)\<rparr>)"
proof -
  show ?thesis
  proof (cases "emoji ev = green_circle")
    case True
    then show ?thesis using assms(1-4) by (simp add: on_reaction_add_def Let_def)
  next
    case False
    then have "emoji ev = red_circle" using assms(5) by simp
    then show ?thesis using assms(1-4) False by (simp add: on_reaction_add_def Let_def)
  qed
qed

lemma vote_gives_stance:
  assumes "\<not> user_bot ev" and "user_id ev \<notin> disabled_voters st"
    and "token_messages st (ev_message_id ev) = Some info"
    and "user_id ev \<noteq> author info"
    and "emoji ev = green_circle \<and> nv = Good \<or> emoji ev = red_circle \<and> nv = Bad"
    and "reputation_ok (reputation st)"
  shows "\<exists>u t. reputation (fst (on_reaction_add e ev st)) (py_str (author info)) = Some u \<and>
           tokens u (msg_token_address info) = Some t \<and>
           user_id ev \<in> set (voters nv t) \<and>
           (\<forall>vt. vt \<noteq> nv \<longrightarrow> user_id ev \<notin> set (voters vt t))"
proof -
  let ?u0 = "case reputation st (py_str (author info)) of
               None \<Rightarrow> \<lparr>good = 0, bad = 0, tokens = Map.empty\<rparr> | Some u \<Rightarrow> u"
  let ?t0 = "init_token_data (msg_token_address info) (token_symbol info) ?u0"
  let ?r = "remove_existing (user_id ev) (remove_existing (user_id ev) (?u0, ?t0, False) Good) Bad"
  let ?added = "add_new_vote (user_id ev) nv (fst ?r, fst (snd ?r))"
  let ?u1 = "(fst ?added)\<lparr>tokens := (tokens (fst ?added))(msg_token_address info \<mapsto> snd ?added)\<rparr>"
  have nv: "(if emoji ev = green_circle then Good else Bad) = nv"
    using assms(5) glyphs_distinct by auto
  have gl: "emoji ev = green_circle \<or> emoji ev = red_circle"
    using assms(5) by auto
  have u0: "\<And>t. tokens ?u0 (msg_token_address info) = Some t \<Longrightarrow> voters_ok t"
    using assms(6) by (auto split: option.splits dest: reputation_ok_lookup)
  have t0: "voters_ok ?t0"
    by (rule voters_ok_init) (rule u0)
  have r: "reputation (fst (on_reaction_add e ev st)) (py_str (author info)) = Some ?u1"
    using on_reaction_add_entry [OF assms(1-4) gl, of e] unfolding Let_def nv .
  have tk: "tokens ?u1 (msg_token_address info) = Some (snd ?added)" by simp
  note s = stance_after_vote [OF t0, of "user_id ev" nv ?u0 False]
  show ?thesis
    using r tk s by blast
qed


text \<open>
  C6: for an accepted vote event (a human, enabled voter who is not the author, a tracked
  message, a vote glyph): when the voter already holds that stance on the token (the voter
  is in the voter list of that type and in no other), the event changes no aggregate:
  every user's counters and every token's counters and voter sets are what they were.
  And in a state whose voter lists are duplicate-free and disjoint, as every reachable
  state is, applying the event twice gives the same aggregates as applying it once.
\<close>

theorem same_stance_is_noop_on_aggregates:
  assumes "\<not> user_bot ev" and "user_id ev \<notin> disabled_voters st"
    and "token_messages st (ev_message_id ev) = Some info"
    and "user_id ev \<noteq> author info"
    and "emoji ev = green_circle \<and> nv = Good \<or> emoji ev = red_circle \<and> nv = Bad"
  shows "(\<forall>u t. reputation st (py_str (author info)) = Some u \<and>
                tokens u (msg_token_address info) = Some t \<and>
                user_id ev \<in> set (voters nv t) \<and>
                (\<forall>vt. vt \<noteq> nv \<longrightarrow> user_id ev \<notin> set (voters vt t)) \<longrightarrow>
            aggregates (fst (on_reaction_add e ev st)) = aggregates st) \<and>
         (reputation_ok (reputation st) \<longrightarrow>
            aggregates (fst (on_reaction_add e' ev (fst (on_reaction_add e ev st)))) =
            aggregates (fst (on_reaction_add e ev st)))"
proof (intro conjI allI impI)
  fix u t
  assume "reputation st (py_str (author info)) = Some u \<and>
          tokens u (msg_token_address info) = Some t \<and>
          user_id ev \<in> set (voters nv t) \<and>
          (\<forall>vt. vt \<noteq> nv \<longrightarrow> user_id ev \<notin> set (voters vt t))"
  then show "aggregates (fst (on_reaction_add e ev st)) = aggregates st"
    using same_stance_aggregates [OF assms, of u t e] by blast
next
  assume ok: "reputation_ok (reputation st)"
  let ?st1 = "fst (on_reaction_add e ev st)"
  from vote_gives_stance [OF assms ok, of e]
  obtain u t where u: "reputation ?st1 (py_str (author info)) = Some u"
    and t: "tokens u (msg_token_address info) = Some t"
    and v: "user_id ev \<in> set (voters nv t)"
    and o: "\<forall>vt. vt \<noteq> nv \<longrightarrow> user_id ev \<notin> set (voters vt t)"
    by blast
  have d: "user_id ev \<notin> disabled_voters ?st1"
    using assms(2) by (simp add: on_reaction_add_keeps_context)
  have m: "token_messages ?st1 (ev_message_id ev) = Some info"
    using assms(3) by (simp add: on_reaction_add_keeps_context)
  show "aggregates (fst (on_reaction_add e' ev ?st1)) = aggregates ?st1"
    by (rule same_stance_aggregates [OF assms(1) d m assms(4,5) u t v o])
qed

theorem same_stance_is_noop_on_aggregates_witness:
  "\<not> user_bot (react 2 100 green_circle) \<and>
   user_id (react 2 100 green_circle) \<notin> disabled_voters tracked_only \<and>
   reputation_ok (reputation tracked_only) \<and>
   aggregates (fst (on_reaction_add (env0 ''b'') (react 2 100 green_circle)
                (fst (on_reaction_add (env0 ''a'') (react 2 100 green_circle) tracked_only)))) =
   aggregates (fst (on_reaction_add (env0 ''a'') (react 2 100 green_circle) tracked_only)) \<and>
   aggregates (fst (on_reaction_add (env0 ''b'') (react 2 100 green_circle)
                (bot (run one_vote_events)))) =
   aggregates (bot (run one_vote_events)) \<and>
   aggregates (bot (run one_vote_events)) (py_str 1) (of_ascii ''So1'') =
     Some (1, 0, Some (1, 0, {2}, {}))"
proof -
  let ?ev = "react 2 100 green_circle"
  let ?t = "\<lparr>t_good = 1, t_bad = 0, goodvoters = [2], badvoters = [],
             symbol = Some (of_ascii ''ABC'')\<rparr>"
  let ?u = "\<lparr>good = 1, bad = 0, tokens = [of_ascii ''So1'' \<mapsto> ?t]\<rparr>"
  let ?info = "\<lparr>author = 1, msg_token_address = of_ascii ''So1'',
                token_symbol = of_ascii ''ABC''\<rparr>"
  have h1: "\<not> user_bot ?ev" by (simp add: react_def)
  have h4: "user_id ?ev \<noteq> author ?info" by (simp add: react_def)
  have h5: "emoji ?ev = green_circle \<and> Good = Good \<or> emoji ?ev = red_circle \<and> Good = Bad"
    by (simp add: react_def)
  have a2: "user_id ?ev \<notin> disabled_voters tracked_only"
    by (simp add: tracked_only_eq init_state_def)
  have a3: "token_messages tracked_only (ev_message_id ?ev) = Some ?info"
    by (simp add: tracked_only_eq react_def)
  have ok: "reputation_ok (reputation tracked_only)"
    by (simp add: tracked_only_eq init_state_def reputation_ok_def)
  have twice: "aggregates (fst (on_reaction_add (env0 ''b'') ?ev
                (fst (on_reaction_add (env0 ''a'') ?ev tracked_only)))) =
     aggregates (fst (on_reaction_add (env0 ''a'') ?ev tracked_only))"
    using same_stance_is_noop_on_aggregates [OF h1 a2 a3 h4 h5, of "env0 ''a''" "env0 ''b''"] ok by blast
  have b2: "user_id ?ev \<notin> disabled_voters (bot (run one_vote_events))"
    by (simp add: one_vote_run)
  have b3: "token_messages (bot (run one_vote_events)) (ev_message_id ?ev) = Some ?info"
    by (simp add: one_vote_run react_def)
  have b6: "reputation (bot (run one_vote_events)) (py_str (author ?info)) = Some ?u"
    by (simp add: one_vote_run)
  have b7: "tokens ?u (msg_token_address ?info) = Some ?t" by simp
  have b8: "user_id ?ev \<in> set (voters Good ?t)" by (simp add: react_def)
  have b9: "\<forall>vt. vt \<noteq> Good \<longrightarrow> user_id ?ev \<notin> set (voters vt ?t)"
  proof (intro allI impI)
    fix vt :: vote_kind
    assume "vt \<noteq> Good"
    then have "vt = Bad" by (cases vt) simp_all
    then show "user_id ?ev \<notin> set (voters vt ?t)" by simp
  qed
  have once: "aggregates (fst (on_reaction_add (env0 ''b'') ?ev (bot (run one_vote_events)))) =
     aggregates (bot (run one_vote_events))"
    using same_stance_is_noop_on_aggregates [OF h1 b2 b3 h4 h5, of "env0 ''b''"] b6 b7 b8 b9 by blast
  have val: "aggregates (bot (run one_vote_events)) (py_str 1) (of_ascii ''So1'') =
     Some (1, 0, Some (1, 0, {2}, {}))"
    using b6 by (simp add: aggregates_def)
  show ?thesis using h1 a2 ok twice once val by blast
qed

end
